theory Spec2Isabelle
  imports Complex_Main
begin

section \<open>The Wormly API client: data model\<close>

text \<open>
  \<^verbatim>\<open>time.Duration\<close> is a count of nanoseconds in an \<^verbatim>\<open>int64\<close>. The durations of the model are
  integers; the one computation on them, the backoff, goes through \<^verbatim>\<open>float64\<close> and back, and
  that conversion is modelled with its range below.
\<close>

type_synonym duration = int

definition millisecond :: duration where
  "millisecond = 1000000"

text \<open>The fields of \<^verbatim>\<open>Client\<close> (client.go) that are plain data. The HTTP client and the rate
  limiter are the environment below.\<close>

record Client =
  apiKey :: string
  baseURL :: string
  userAgent :: string
  maxRetries :: int
  initialBackoff :: duration
  backoffMultiplier :: rat
  maxBackoff :: duration
  debugEnabled :: bool

subsection \<open>\<^verbatim>\<open>float64\<close> arithmetic\<close>

text \<open>
  A finite \<^verbatim>\<open>float64\<close> is the rational number it denotes. \<open>float64_round\<close> is rounding to the
  nearest \<^verbatim>\<open>float64\<close>, ties to the even significand (IEEE 754 binary64): for \<open>x > 0\<close> with
  \<open>2^e \<le> x < 2^(e+1)\<close> the neighbouring values are the multiples of \<open>2^(e-52)\<close>, and of
  \<open>2^(-1074)\<close> below the normal range. A result of magnitude \<open>2^1024\<close> or more stands for an
  infinity. \<open>ilog2 n\<close> is the position of the highest bit of \<open>n\<close>.
\<close>

fun ilog2 :: "nat \<Rightarrow> nat" where
  "ilog2 n = (if n < 2 then 0 else Suc (ilog2 (n div 2)))"

declare ilog2.simps [simp del]

definition pow2 :: "int \<Rightarrow> rat" where
  "pow2 e = (if 0 \<le> e then 2 ^ nat e else 1 / 2 ^ nat (- e))"

text \<open>The exponent \<open>e\<close> of a positive \<open>x\<close>: the highest bit of its integer part when \<open>x \<ge> 1\<close>, and
  otherwise minus the number of bits of \<open>\<lceil>1 / x\<rceil> - 1\<close>.\<close>

definition float64_exponent :: "rat \<Rightarrow> int" where
  "float64_exponent x =
     (if 1 \<le> x then int (ilog2 (nat \<lfloor>x\<rfloor>))
      else - int (if \<lceil>1 / x\<rceil> \<le> 1 then 0 else Suc (ilog2 (nat (\<lceil>1 / x\<rceil> - 1)))))"

definition round_half_even :: "rat \<Rightarrow> int" where
  "round_half_even y =
     (let f = \<lfloor>y\<rfloor>; r = y - of_int f
      in if r < 1 / 2 then f else if 1 / 2 < r then f + 1 else if even f then f else f + 1)"

definition float64_round_pos :: "rat \<Rightarrow> rat" where
  "float64_round_pos x =
     (let q = pow2 (max (float64_exponent x) (- 1022) - 52)
      in of_int (round_half_even (x / q)) * q)"

definition float64_round :: "rat \<Rightarrow> rat" where
  "float64_round x =
     (if x = 0 then 0 else if 0 < x then float64_round_pos x else - float64_round_pos (- x))"

text \<open>The conversion \<^verbatim>\<open>float64(n)\<close> of an \<^verbatim>\<open>int64\<close> and the product \<^verbatim>\<open>a * b\<close> of two \<^verbatim>\<open>float64\<close>: the
  exact result, rounded.\<close>

definition float64_of_int :: "int \<Rightarrow> rat" where
  "float64_of_int n = float64_round (of_int n)"

definition float64_mul :: "rat \<Rightarrow> rat \<Rightarrow> rat" where
  "float64_mul a b = float64_round (a * b)"

text \<open>The conversions \<^verbatim>\<open>time.Duration(x)\<close> and \<^verbatim>\<open>int(x)\<close> of a \<^verbatim>\<open>float64\<close> to a 64-bit integer: the
  fraction is discarded (towards zero), and a value outside the \<^verbatim>\<open>int64\<close> range, an infinity
  included, gives the least \<^verbatim>\<open>int64\<close>, as the conversion instruction of amd64 does.\<close>

definition int64_of_float64 :: "rat \<Rightarrow> int" where
  "int64_of_float64 x =
     (let n = (if 0 \<le> x then \<lfloor>x\<rfloor> else \<lceil>x\<rceil>)
      in if - (2 ^ 63) \<le> n \<and> n < 2 ^ 63 then n else - (2 ^ 63))"

text \<open>\<^verbatim>\<open>calculateNextBackoff\<close> (client.go). The multiplier is a finite \<^verbatim>\<open>float64\<close>.\<close>

definition calculateNextBackoff :: "Client \<Rightarrow> duration \<Rightarrow> duration" where
  "calculateNextBackoff c current =
     (let next = int64_of_float64 (float64_mul (float64_of_int current) (backoffMultiplier c))
      in if next > maxBackoff c then maxBackoff c else next)"

text \<open>\<^verbatim>\<open>isTransientHTTPError\<close> (client.go): the switch over the five status constants.\<close>

definition StatusTooManyRequests :: int where "StatusTooManyRequests = 429"
definition StatusInternalServerError :: int where "StatusInternalServerError = 500"
definition StatusBadGateway :: int where "StatusBadGateway = 502"
definition StatusServiceUnavailable :: int where "StatusServiceUnavailable = 503"
definition StatusGatewayTimeout :: int where "StatusGatewayTimeout = 504"

definition isTransientHTTPError :: "int \<Rightarrow> bool" where
  "isTransientHTTPError statusCode =
     (if statusCode = StatusTooManyRequests \<or> statusCode = StatusInternalServerError
         \<or> statusCode = StatusBadGateway \<or> statusCode = StatusServiceUnavailable
         \<or> statusCode = StatusGatewayTimeout
      then True else False)"

subsection \<open>Go error values\<close>

text \<open>
  The error values the transport can hand to the client, by dynamic type. Only the types
  that the classifier's type assertions tell apart are distinguished:
  \<^item> \<open>ErrorString\<close>: an error without a \<^verbatim>\<open>Timeout()\<close> method (\<^verbatim>\<open>errors.New\<close>, \<^verbatim>\<open>fmt.Errorf\<close>);
  \<^item> \<open>NetError msg timeout temporary\<close>: any other implementation of \<^verbatim>\<open>net.Error\<close>, with the
    values its \<^verbatim>\<open>Timeout()\<close> and \<^verbatim>\<open>Temporary()\<close> return (the test helpers \<^verbatim>\<open>timeoutError\<close> and
    \<^verbatim>\<open>temporaryError\<close>, \<^verbatim>\<open>net.DNSError\<close>);
  \<^item> \<open>Errno n\<close>: \<^verbatim>\<open>syscall.Errno\<close>;
  \<^item> \<open>SyscallError call err\<close>: \<^verbatim>\<open>*os.SyscallError\<close>;
  \<^item> \<open>OpError op err\<close>: \<^verbatim>\<open>*net.OpError\<close>;
  \<^item> \<open>UrlError op url err\<close>: \<^verbatim>\<open>*url.Error\<close>.
\<close>

datatype go_error =
    ErrorString string
  | NetError string bool bool
  | Errno nat
  | SyscallError string go_error
  | OpError string go_error
  | UrlError string string go_error

text \<open>The errno numbers of Linux that the client and the library's \<^verbatim>\<open>Errno.Timeout\<close> name.\<close>

definition EAGAIN :: nat where "EAGAIN = 11"
definition EWOULDBLOCK :: nat where "EWOULDBLOCK = 11"
definition ECONNRESET :: nat where "ECONNRESET = 104"
definition ETIMEDOUT :: nat where "ETIMEDOUT = 110"
definition ECONNREFUSED :: nat where "ECONNREFUSED = 111"

text \<open>
  The method sets of the Go standard library. \<open>has_Timeout\<close>: the value has a method
  \<^verbatim>\<open>Timeout() bool\<close>. \<open>is_net_Error\<close>: the type assertion \<^verbatim>\<open>err.(net.Error)\<close> succeeds, that
  is the value has \<^verbatim>\<open>Error\<close>, \<^verbatim>\<open>Timeout\<close> and \<^verbatim>\<open>Temporary\<close>; \<^verbatim>\<open>syscall.Errno\<close>, \<^verbatim>\<open>*net.OpError\<close> and
  \<^verbatim>\<open>*url.Error\<close> have all three, \<^verbatim>\<open>*os.SyscallError\<close> has no \<^verbatim>\<open>Temporary\<close>.
\<close>

fun has_Timeout :: "go_error \<Rightarrow> bool" where
  "has_Timeout (ErrorString m) = False"
| "has_Timeout (NetError m t tmp) = True"
| "has_Timeout (Errno n) = True"
| "has_Timeout (SyscallError call e) = True"
| "has_Timeout (OpError op e) = True"
| "has_Timeout (UrlError op url e) = True"

fun is_net_Error :: "go_error \<Rightarrow> bool" where
  "is_net_Error (ErrorString m) = False"
| "is_net_Error (NetError m t tmp) = True"
| "is_net_Error (Errno n) = True"
| "is_net_Error (SyscallError call e) = False"
| "is_net_Error (OpError op e) = True"
| "is_net_Error (UrlError op url e) = True"

text \<open>
  The library's \<^verbatim>\<open>Timeout()\<close> methods: \<^verbatim>\<open>Errno.Timeout\<close> is true of \<^verbatim>\<open>EAGAIN\<close>, \<^verbatim>\<open>EWOULDBLOCK\<close> and
  \<^verbatim>\<open>ETIMEDOUT\<close>; \<^verbatim>\<open>OpError.Timeout\<close> looks through one \<^verbatim>\<open>*os.SyscallError\<close> and then asks the
  wrapped error, if that has the method; \<^verbatim>\<open>url.Error.Timeout\<close> and \<^verbatim>\<open>SyscallError.Timeout\<close> ask the
  wrapped error, if that has the method.
\<close>

fun Timeout :: "go_error \<Rightarrow> bool" where
  "Timeout (ErrorString m) = False"
| "Timeout (NetError m t tmp) = t"
| "Timeout (Errno n) = (n = EAGAIN \<or> n = EWOULDBLOCK \<or> n = ETIMEDOUT)"
| "Timeout (SyscallError call e) = (has_Timeout e \<and> Timeout e)"
| "Timeout (OpError op (SyscallError call e)) = (has_Timeout e \<and> Timeout e)"
| "Timeout (OpError op e) = (has_Timeout e \<and> Timeout e)"
| "Timeout (UrlError op url e) = (has_Timeout e \<and> Timeout e)"

text \<open>\<^verbatim>\<open>isTransientNetworkError\<close> (client.go), branch by branch; \<open>None\<close> is the nil error.\<close>

fun isTransientNetworkError :: "go_error option \<Rightarrow> bool" where
  "isTransientNetworkError None = False"
| "isTransientNetworkError (Some err) =
     (if is_net_Error err then Timeout err
      else (case err of
              UrlError op url e \<Rightarrow> isTransientNetworkError (Some e)
            | OpError op e \<Rightarrow>
                (case e of
                   Errno syscallErr \<Rightarrow>
                     (if syscallErr = ECONNREFUSED \<or> syscallErr = ECONNRESET
                         \<or> syscallErr = ETIMEDOUT then True else False)
                 | _ \<Rightarrow> False)
            | _ \<Rightarrow> False))"

subsection \<open>Requests, responses, the environment and the trace of effects\<close>

text \<open>
  An outbound request: method, URL, headers and, for the form-encoded commands, the
  key/value pairs that \<^verbatim>\<open>url.Values.Encode\<close> writes into the body. A response: status code,
  status line, and what \<^verbatim>\<open>io.ReadAll\<close> returns on its body (the bytes and the error, if any).
\<close>

record request =
  Method :: string
  URL :: string
  Header :: "string \<rightharpoonup> string"
  Form :: "string \<rightharpoonup> string"

record response =
  StatusCode :: int
  Status :: string
  Body :: string
  BodyErr :: "go_error option"

text \<open>
  The world outside the client. \<open>limiter_Wait env n\<close> is what the \<open>n\<close>-th call of
  \<^verbatim>\<open>c.limiter.Wait(ctx)\<close> returns: \<open>None\<close> when the token is granted, an error when the caller's
  context is cancelled or expires first. \<open>httpClient_Do env n req\<close> is the outcome of the
  \<open>n\<close>-th round trip \<^verbatim>\<open>c.httpClient.Do(req)\<close>. \<open>NewRequest env method url\<close> is the error of
  \<^verbatim>\<open>http.NewRequestWithContext\<close>, if it fails.
\<close>

record env =
  limiter_Wait :: "nat \<Rightarrow> go_error option"
  httpClient_Do :: "nat \<Rightarrow> request \<Rightarrow> go_error + response"
  NewRequest :: "string \<Rightarrow> string \<Rightarrow> go_error option"

text \<open>
  What a call does to the world, in order: limiter acquisitions, round trips, the
  durations passed to \<^verbatim>\<open>time.Sleep\<close>, bodies closed, bodies read with \<^verbatim>\<open>io.ReadAll\<close>, and calls
  of \<^verbatim>\<open>json.Unmarshal\<close>. The debug log lines are not part of the model.
\<close>

record trace =
  waits :: nat
  requests :: nat
  sleeps :: "duration list"
  closes :: nat
  reads :: nat
  decodes :: nat

definition Wait :: "trace \<Rightarrow> trace" where
  "Wait t = t\<lparr>waits := waits t + 1\<rparr>"

definition RoundTrip :: "trace \<Rightarrow> trace" where
  "RoundTrip t = t\<lparr>requests := requests t + 1\<rparr>"

definition Sleep :: "duration \<Rightarrow> trace \<Rightarrow> trace" where
  "Sleep d t = t\<lparr>sleeps := sleeps t @ [d]\<rparr>"

definition Body_Close :: "trace \<Rightarrow> trace" where
  "Body_Close t = t\<lparr>closes := closes t + 1\<rparr>"

definition ReadAll :: "trace \<Rightarrow> trace" where
  "ReadAll t = t\<lparr>reads := reads t + 1\<rparr>"

definition Unmarshal :: "trace \<Rightarrow> trace" where
  "Unmarshal t = t\<lparr>decodes := decodes t + 1\<rparr>"

text \<open>
  The errors the executor returns, one constructor for each \<^verbatim>\<open>return\<close> of an error in
  \<^verbatim>\<open>Do\<close> and \<^verbatim>\<open>makeFormRequest\<close>:
  \<^item> \<open>RateLimiterWaitFailed e\<close>: \<^verbatim>\<open>"rate limiter wait failed: %w"\<close>;
  \<^item> \<open>FailedToCreateRequest e\<close>: \<^verbatim>\<open>"failed to create request: %w"\<close>;
  \<^item> \<open>TransportError e\<close>: the transport's error, returned as it is;
  \<^item> \<open>HTTPError code status\<close>: \<^verbatim>\<open>"HTTP %d: %s"\<close>;
  \<^item> \<open>APIRequestFailed code body\<close>: \<^verbatim>\<open>"API request failed with status %d: %s"\<close>;
  \<^item> \<open>FailedToReadBody e\<close>: \<^verbatim>\<open>"failed to read response body: %w"\<close>;
  \<^item> \<open>FailedToDecode e\<close>: \<^verbatim>\<open>"failed to decode response: %w"\<close>;
  \<^item> \<open>RequestFailedAfterRetries n lastErr\<close>: \<^verbatim>\<open>"request failed after %d retries: %w"\<close>, where
    \<open>lastErr\<close> is \<open>None\<close> while the variable is still nil.
\<close>

datatype exec_error =
    RateLimiterWaitFailed go_error
  | FailedToCreateRequest go_error
  | TransportError go_error
  | HTTPError int string
  | APIRequestFailed int string
  | FailedToReadBody go_error
  | FailedToDecode go_error
  | RequestFailedAfterRetries int "exec_error option"

subsection \<open>The generic call: \<^verbatim>\<open>Do\<close>\<close>

definition Header_Get :: "(string \<rightharpoonup> string) \<Rightarrow> string \<Rightarrow> string" where
  "Header_Get h k = (case h k of None \<Rightarrow> [] | Some v \<Rightarrow> v)"

definition inject_headers :: "Client \<Rightarrow> request \<Rightarrow> request" where
  "inject_headers c req =
     (let h1 = (if Header_Get (Header req) ''Authorization'' = []
                then (Header req)(''Authorization'' \<mapsto> ''Bearer '' @ apiKey c)
                else Header req);
          h2 = (if Header_Get h1 ''User-Agent'' = []
                then h1(''User-Agent'' \<mapsto> userAgent c) else h1);
          h3 = (if Header_Get h2 ''Content-Type'' = []
                then h2(''Content-Type'' \<mapsto> ''application/json'') else h2)
      in req\<lparr>Header := h3\<rparr>)"

text \<open>
  The \<^verbatim>\<open>for attempt := 0; attempt <= c.maxRetries; attempt++\<close> loop of \<^verbatim>\<open>Do\<close>, entered at
  \<open>attempt\<close> with the current \<open>backoff\<close> and \<open>lastErr\<close>. The last line is the statement after
  the loop.
\<close>

function Do_loop ::
  "Client \<Rightarrow> env \<Rightarrow> request \<Rightarrow> int \<Rightarrow> duration \<Rightarrow> exec_error option \<Rightarrow> trace
     \<Rightarrow> (exec_error + response) \<times> trace" where
  "Do_loop c env req attempt backoff lastErr t =
     (if attempt \<le> maxRetries c then
        (case httpClient_Do env (requests t) req of
           Inl err \<Rightarrow>
             (if isTransientNetworkError (Some err) then
                (if attempt < maxRetries c then
                   Do_loop c env req (attempt + 1) (calculateNextBackoff c backoff)
                     (Some (TransportError err)) (Sleep backoff (RoundTrip t))
                 else (Inl (TransportError err), RoundTrip t))
              else (Inl (TransportError err), RoundTrip t))
         | Inr resp \<Rightarrow>
             (if isTransientHTTPError (StatusCode resp) then
                (if attempt < maxRetries c then
                   Do_loop c env req (attempt + 1) (calculateNextBackoff c backoff)
                     (Some (HTTPError (StatusCode resp) (Status resp)))
                     (Sleep backoff (Body_Close (RoundTrip t)))
                 else (Inl (HTTPError (StatusCode resp) (Status resp)),
                       Body_Close (RoundTrip t)))
              else (Inr resp, RoundTrip t)))
      else (Inl (RequestFailedAfterRetries (maxRetries c) lastErr), t))"
  by pat_completeness auto
termination
  by (relation "measure (\<lambda>(c, env, req, attempt, backoff, lastErr, t).
        nat (maxRetries c + 1 - attempt))") auto

declare Do_loop.simps [simp del]

definition Do :: "Client \<Rightarrow> env \<Rightarrow> request \<Rightarrow> trace \<Rightarrow> (exec_error + response) \<times> trace" where
  "Do c env req t =
     (case limiter_Wait env (waits t) of
        Some err \<Rightarrow> (Inl (RateLimiterWaitFailed err), Wait t)
      | None \<Rightarrow> Do_loop c env (inject_headers c req) 0 (initialBackoff c) None (Wait t))"

subsection \<open>The form-command call: \<^verbatim>\<open>makeFormRequest\<close>\<close>

text \<open>
  The caller's \<^verbatim>\<open>result\<close> is \<open>None\<close> for nil and otherwise the decoder of its type:
  what \<^verbatim>\<open>json.Unmarshal(responseBytes, result)\<close> makes of the bytes.
\<close>

type_synonym 'r target = "string \<Rightarrow> go_error + 'r"

text \<open>What follows the two retry branches in the loop body: a response with a
  non-transient status.\<close>

definition finish_form ::
  "response \<Rightarrow> 'r target option \<Rightarrow> trace \<Rightarrow> (exec_error + 'r option) \<times> trace" where
  "finish_form resp result t =
     (if StatusCode resp < 200 \<or> StatusCode resp \<ge> 300 then
        (Inl (APIRequestFailed (StatusCode resp) (Body resp)), Body_Close (ReadAll t))
      else
        (case result of
           None \<Rightarrow> (Inr None, Body_Close t)
         | Some decode \<Rightarrow>
             (case BodyErr resp of
                Some err \<Rightarrow> (Inl (FailedToReadBody err), Body_Close (ReadAll t))
              | None \<Rightarrow>
                  (case decode (Body resp) of
                     Inl err \<Rightarrow> (Inl (FailedToDecode err), Body_Close (Unmarshal (ReadAll t)))
                   | Inr v \<Rightarrow> (Inr (Some v), Body_Close (Unmarshal (ReadAll t)))))))"

function makeFormRequest_loop ::
  "Client \<Rightarrow> env \<Rightarrow> request \<Rightarrow> 'r target option \<Rightarrow> int \<Rightarrow> duration \<Rightarrow> exec_error option
     \<Rightarrow> trace \<Rightarrow> (exec_error + 'r option) \<times> trace" where
  "makeFormRequest_loop c env req result attempt backoff lastErr t =
     (if attempt \<le> maxRetries c then
        (case httpClient_Do env (requests t) req of
           Inl err \<Rightarrow>
             (if isTransientNetworkError (Some err) then
                (if attempt < maxRetries c then
                   makeFormRequest_loop c env req result (attempt + 1)
                     (calculateNextBackoff c backoff)
                     (Some (TransportError err)) (Sleep backoff (RoundTrip t))
                 else (Inl (TransportError err), RoundTrip t))
              else (Inl (TransportError err), RoundTrip t))
         | Inr resp \<Rightarrow>
             (if isTransientHTTPError (StatusCode resp) then
                (if attempt < maxRetries c then
                   makeFormRequest_loop c env req result (attempt + 1)
                     (calculateNextBackoff c backoff)
                     (Some (HTTPError (StatusCode resp) (Status resp)))
                     (Sleep backoff (Body_Close (RoundTrip t)))
                 else (Inl (HTTPError (StatusCode resp) (Status resp)),
                       Body_Close (RoundTrip t)))
              else finish_form resp result (RoundTrip t)))
      else (Inl (RequestFailedAfterRetries (maxRetries c) lastErr), t))"
  by pat_completeness auto
termination
  by (relation "measure (\<lambda>(c, env, req, result, attempt, backoff, lastErr, t).
        nat (maxRetries c + 1 - attempt))") auto

declare makeFormRequest_loop.simps [simp del]

definition form_data :: "Client \<Rightarrow> string \<Rightarrow> (string \<rightharpoonup> string) \<Rightarrow> (string \<rightharpoonup> string)" where
  "form_data c command params =
     [''cmd'' \<mapsto> command, ''key'' \<mapsto> apiKey c, ''response'' \<mapsto> ''json''] ++ params"

definition form_request :: "Client \<Rightarrow> string \<Rightarrow> (string \<rightharpoonup> string) \<Rightarrow> request" where
  "form_request c command params =
     \<lparr>Method = ''POST'', URL = baseURL c,
      Header = [''Content-Type'' \<mapsto> ''application/x-www-form-urlencoded'',
                ''User-Agent'' \<mapsto> userAgent c],
      Form = form_data c command params\<rparr>"

definition makeFormRequest ::
  "Client \<Rightarrow> env \<Rightarrow> string \<Rightarrow> (string \<rightharpoonup> string) \<Rightarrow> 'r target option \<Rightarrow> trace
     \<Rightarrow> (exec_error + 'r option) \<times> trace" where
  "makeFormRequest c env command params result t =
     (case limiter_Wait env (waits t) of
        Some err \<Rightarrow> (Inl (RateLimiterWaitFailed err), Wait t)
      | None \<Rightarrow>
          (case NewRequest env ''POST'' (baseURL c) of
             Some err \<Rightarrow> (Inl (FailedToCreateRequest err), Wait t)
           | None \<Rightarrow>
               makeFormRequest_loop c env (form_request c command params) result 0
                 (initialBackoff c) None (Wait t)))"

section \<open>The host operations and the host resource\<close>

subsection \<open>\<^verbatim>\<open>strconv.Itoa\<close> and \<^verbatim>\<open>strconv.Atoi\<close>\<close>

text \<open>The two library conversions the adapters and the decoder call. \<open>Itoa\<close> writes an
  integer in decimal. \<open>Atoi\<close> reads an optional sign and at least one decimal digit.\<close>

definition digit_char :: "nat \<Rightarrow> char" where
  "digit_char d = ''0123456789'' ! d"

fun digits :: "nat \<Rightarrow> string" where
  "digits n = (if n < 10 then [digit_char n] else digits (n div 10) @ [digit_char (n mod 10)])"

declare digits.simps [simp del]

definition Itoa :: "int \<Rightarrow> string" where
  "Itoa i = (if i < 0 then CHR ''-'' # digits (nat (- i)) else digits (nat i))"

datatype NumError = ErrSyntax | ErrRange

definition digit_val :: "char \<Rightarrow> nat option" where
  "digit_val ch =
     (if 48 \<le> (of_char ch :: nat) \<and> (of_char ch :: nat) \<le> 57
      then Some (of_char ch - 48) else None)"

text \<open>The scan of \<^verbatim>\<open>strconv.ParseUint\<close> in base 10 with 64 bits: a character that is no digit
  is a syntax error, and the value leaving \<^verbatim>\<open>uint64\<close> is a range error, each at the character
  where it happens; \<open>n\<close> is the value read so far.\<close>

definition maxUint64 :: nat where
  "maxUint64 = 2 ^ 64 - 1"

fun parse_digits :: "string \<Rightarrow> nat \<Rightarrow> NumError + nat" where
  "parse_digits [] n = Inr n"
| "parse_digits (ch # s) n =
     (case digit_val ch of
        None \<Rightarrow> Inl ErrSyntax
      | Some d \<Rightarrow>
          (if maxUint64 div 10 + 1 \<le> n then Inl ErrRange
           else if maxUint64 < n * 10 + d then Inl ErrRange
           else parse_digits s (n * 10 + d)))"

text \<open>\<^verbatim>\<open>strconv.Atoi\<close> on a 64-bit platform: the sign, \<^verbatim>\<open>ParseUint\<close> on the rest, and the test of
  the signed range.\<close>

definition Atoi :: "string \<Rightarrow> NumError + int" where
  "Atoi s =
     (case s of
        [] \<Rightarrow> Inl ErrSyntax
      | ch # rest \<Rightarrow>
          (let neg = (ch = CHR ''-'');
               ds = (if ch = CHR ''-'' \<or> ch = CHR ''+'' then rest else s)
           in if ds = [] then Inl ErrSyntax
              else (case parse_digits ds 0 of
                      Inl err \<Rightarrow> Inl err
                    | Inr un \<Rightarrow>
                        (if \<not> neg \<and> 2 ^ 63 \<le> un then Inl ErrRange
                         else if neg \<and> 2 ^ 63 < un then Inl ErrRange
                         else Inr (if neg then - int un else int un)))))"

subsection \<open>\<^verbatim>\<open>GetHost\<close> (host.go)\<close>

text \<open>\<^verbatim>\<open>Host\<close>, one entry of the \<^verbatim>\<open>status\<close> array, and \<^verbatim>\<open>WormlyHostStatusResponse\<close>. Field names
  that several Go structs share carry the struct's name here; the timestamps, which
  \<^verbatim>\<open>GetHost\<close> fills with \<^verbatim>\<open>time.Now()\<close>, are left out.\<close>

record Host =
  Host_ID :: int
  Host_Name :: string
  Host_TestInterval :: int
  Host_Enabled :: bool

record HostStatus =
  status_HostID :: int
  status_Name :: string
  UptimeMonitored :: bool
  HealthMonitored :: bool
  UptimeErrors :: bool
  HealthErrors :: bool

record WormlyHostStatusResponse =
  ErrorCode :: int
  StatusList :: "HostStatus list"

text \<open>The errors \<^verbatim>\<open>GetHost\<close> makes: \<^verbatim>\<open>"failed to get host: %w"\<close>, \<^verbatim>\<open>"API returned error code %d"\<close>
  and \<^verbatim>\<open>"host with ID %d not found"\<close>.\<close>

datatype host_error =
    FailedToGetHost exec_error
  | APIReturnedErrorCode int
  | HostNotFound int

definition zero_response :: WormlyHostStatusResponse where
  "zero_response = \<lparr>ErrorCode = 0, StatusList = []\<rparr>"

text \<open>The loop \<^verbatim>\<open>for _, host := range response.Status\<close> with its \<^verbatim>\<open>return\<close> at the first match.\<close>

fun find_host :: "int \<Rightarrow> HostStatus list \<Rightarrow> Host option" where
  "find_host hostID [] = None"
| "find_host hostID (host # rest) =
     (if status_HostID host = hostID then
        Some \<lparr>Host_ID = status_HostID host, Host_Name = status_Name host,
              Host_TestInterval = 60,
              Host_Enabled = (UptimeMonitored host \<or> HealthMonitored host)\<rparr>
      else find_host hostID rest)"

text \<open>\<open>decode\<close> is \<^verbatim>\<open>json.Unmarshal\<close> into a \<^verbatim>\<open>WormlyHostStatusResponse\<close>.\<close>

definition GetHost ::
  "Client \<Rightarrow> env \<Rightarrow> WormlyHostStatusResponse target \<Rightarrow> int \<Rightarrow> trace
     \<Rightarrow> (host_error + Host) \<times> trace" where
  "GetHost c env decode hostID t =
     (case makeFormRequest c env ''getHostStatus'' [''hostid'' \<mapsto> Itoa hostID] (Some decode) t of
        (Inl err, t') \<Rightarrow> (Inl (FailedToGetHost err), t')
      | (Inr result, t') \<Rightarrow>
          (let response = (case result of None \<Rightarrow> zero_response | Some r \<Rightarrow> r)
           in if ErrorCode response \<noteq> 0 then (Inl (APIReturnedErrorCode (ErrorCode response)), t')
              else if length (StatusList response) = 0 then (Inl (HostNotFound hostID), t')
              else (case find_host hostID (StatusList response) of
                      Some host \<Rightarrow> (Inr host, t')
                    | None \<Rightarrow> (Inl (HostNotFound hostID), t'))))"

subsection \<open>The text of an error\<close>

text \<open>
  \<^verbatim>\<open>err.Error()\<close> for the errors above, following the format strings. \<open>msg\<close> is the library's
  \<^verbatim>\<open>Error()\<close> on the transport's error values; the verb \<^verbatim>\<open>%w\<close> of a nil error prints
  \<^verbatim>\<open>%!w(<nil>)\<close>.
\<close>

fun exec_Error :: "(go_error \<Rightarrow> string) \<Rightarrow> exec_error \<Rightarrow> string" where
  "exec_Error msg (RateLimiterWaitFailed e) = ''rate limiter wait failed: '' @ msg e"
| "exec_Error msg (FailedToCreateRequest e) = ''failed to create request: '' @ msg e"
| "exec_Error msg (TransportError e) = msg e"
| "exec_Error msg (HTTPError code status) = ''HTTP '' @ Itoa code @ '': '' @ status"
| "exec_Error msg (APIRequestFailed code body) =
     ''API request failed with status '' @ Itoa code @ '': '' @ body"
| "exec_Error msg (FailedToReadBody e) = ''failed to read response body: '' @ msg e"
| "exec_Error msg (FailedToDecode e) = ''failed to decode response: '' @ msg e"
| "exec_Error msg (RequestFailedAfterRetries n lastErr) =
     ''request failed after '' @ Itoa n @ '' retries: ''
       @ (case lastErr of None \<Rightarrow> ''%!w(<nil>)'' | Some e \<Rightarrow> exec_Error msg e)"

fun host_Error :: "(go_error \<Rightarrow> string) \<Rightarrow> host_error \<Rightarrow> string" where
  "host_Error msg (FailedToGetHost e) = ''failed to get host: '' @ exec_Error msg e"
| "host_Error msg (APIReturnedErrorCode n) = ''API returned error code '' @ Itoa n"
| "host_Error msg (HostNotFound hostID) = ''host with ID '' @ Itoa hostID @ '' not found''"

subsection \<open>The host resource's \<^verbatim>\<open>Read\<close> and \<^verbatim>\<open>isNotFoundError\<close>\<close>

text \<open>\<^verbatim>\<open>isNotFoundError\<close> looks only at the text of the error: the argument is \<open>None\<close> for nil and
  otherwise what \<^verbatim>\<open>err.Error()\<close> returns.\<close>

definition isNotFoundError :: "string option \<Rightarrow> bool" where
  "isNotFoundError err = (case err of None \<Rightarrow> False | Some text \<Rightarrow> text = ''404 Not Found'')"

text \<open>The \<^verbatim>\<open>HTTP sensor\<close> resource's \<^verbatim>\<open>Read\<close> tests its error in another way
  (resource_sensor_http.go): \<^verbatim>\<open>strings.Contains(err.Error(), "404") ||
  strings.Contains(err.Error(), "not found")\<close>.\<close>

fun is_prefix :: "string \<Rightarrow> string \<Rightarrow> bool" where
  "is_prefix [] s = True"
| "is_prefix (a # p) [] = False"
| "is_prefix (a # p) (b # s) = (a = b \<and> is_prefix p s)"

fun Contains :: "string \<Rightarrow> string \<Rightarrow> bool" where
  "Contains [] substr = (substr = [])"
| "Contains (a # s) substr = (is_prefix substr (a # s) \<or> Contains s substr)"

definition sensor_not_found :: "string \<Rightarrow> bool" where
  "sensor_not_found text = (Contains text ''404'' \<or> Contains text ''not found'')"

record hostResourceModel =
  model_ID :: string
  model_Name :: string
  model_TestInterval :: int
  model_Enabled :: bool

text \<open>What \<^verbatim>\<open>hostResource.Read\<close> leaves in its response, given the prior state it has read:
  a parse error, the resource removed from the state, a client error with its detail, or
  the refreshed state. The client is the \<^verbatim>\<open>HostAPI\<close> interface: \<open>getHost hostID\<close> returns the host or the
  text of the error.\<close>

datatype read_outcome =
    ParseError NumError
  | RemoveResource
  | ClientError string
  | StateSet hostResourceModel

definition hostResource_Read :: "(int \<Rightarrow> string + Host) \<Rightarrow> hostResourceModel \<Rightarrow> read_outcome" where
  "hostResource_Read getHost data =
     (case Atoi (model_ID data) of
        Inl err \<Rightarrow> ParseError err
      | Inr hostID \<Rightarrow>
          (case getHost hostID of
             Inl err \<Rightarrow>
               (if isNotFoundError (Some err) then RemoveResource
                else ClientError (''Unable to read host, got error: '' @ err))
           | Inr host \<Rightarrow>
               StateSet (data\<lparr>model_Name := Host_Name host,
                               model_TestInterval := Host_TestInterval host,
                               model_Enabled := Host_Enabled host\<rparr>)))"

text \<open>The client behind the interface: \<open>GetHost\<close>, with its error as text.\<close>

definition client_GetHost ::
  "Client \<Rightarrow> env \<Rightarrow> WormlyHostStatusResponse target \<Rightarrow> (go_error \<Rightarrow> string) \<Rightarrow> trace
     \<Rightarrow> int \<Rightarrow> string + Host" where
  "client_GetHost c env decode msg t hostID =
     (case fst (GetHost c env decode hostID t) of
        Inl err \<Rightarrow> Inl (host_Error msg err)
      | Inr host \<Rightarrow> Inr host)"

section \<open>Decoding a scheduled downtime period\<close>

text \<open>
  The value \<^verbatim>\<open>encoding/json\<close> stores in a field of type \<^verbatim>\<open>interface{}\<close>, by dynamic type: nil for
  \<^verbatim>\<open>null\<close> or a missing key, \<^verbatim>\<open>string\<close>, \<^verbatim>\<open>float64\<close> for every JSON number, \<^verbatim>\<open>bool\<close>, a slice, a
  map. \<open>GoInt\<close> is a Go \<^verbatim>\<open>int\<close>, which the type switch of \<^verbatim>\<open>UnmarshalJSON\<close> names and the decoder
  never produces. A \<^verbatim>\<open>float64\<close> is the rational number it denotes; the conversion \<^verbatim>\<open>int(v)\<close> is
  \<open>int64_of_float64\<close>.
\<close>

datatype go_value =
    GoNil
  | GoString string
  | GoFloat64 rat
  | GoInt int
  | GoBool bool
  | GoSlice "go_value list"
  | GoMap "(string \<times> go_value) list"

record ScheduledDowntimePeriod =
  ID :: int
  HostID :: int
  Start :: string
  End :: string
  Timezone :: string
  Recurrence :: string
  On :: string





section \<open>Vocabulary of the properties\<close>

text \<open>
  The outcome of one round trip is transient when the loop body takes one of its two
  retry tests: a transport error that \<open>isTransientNetworkError\<close> accepts, or a response whose
  status \<open>isTransientHTTPError\<close> accepts. \<open>transient_error\<close> is the value the loop body stores in
  \<^verbatim>\<open>lastErr\<close> for such an outcome.
\<close>

definition transient_outcome :: "go_error + response \<Rightarrow> bool" where
  "transient_outcome r =
     (case r of Inl err \<Rightarrow> isTransientNetworkError (Some err)
              | Inr resp \<Rightarrow> isTransientHTTPError (StatusCode resp))"

definition transient_error :: "go_error + response \<Rightarrow> exec_error" where
  "transient_error r =
     (case r of Inl err \<Rightarrow> TransportError err
              | Inr resp \<Rightarrow> HTTPError (StatusCode resp) (Status resp))"

text \<open>The first \<open>k\<close> values of the backoff variable: \<open>b\<close>, then \<open>calculateNextBackoff\<close> applied
  again and again.\<close>

definition backoffs :: "Client \<Rightarrow> duration \<Rightarrow> nat \<Rightarrow> duration list" where
  "backoffs c b k = map (\<lambda>i. (calculateNextBackoff c ^^ i) b) [0..<k]"

subsection \<open>Concrete clients, servers and requests\<close>

text \<open>The client of \<^verbatim>\<open>TestClient_Do_RetryOnTransientErrors\<close> (three retries) and the client of
  \<^verbatim>\<open>TestClient_Do_BackoffCap\<close> (100ms, tripled, capped at 200ms, five retries).\<close>

definition retry_client :: Client where
  "retry_client =
     \<lparr>apiKey = ''test-api-key'', baseURL = ''http://127.0.0.1'', userAgent = ''test-agent/1.0'',
      maxRetries = 3, initialBackoff = millisecond, backoffMultiplier = 2,
      maxBackoff = 100 * millisecond, debugEnabled = False\<rparr>"


definition status_line :: "int \<Rightarrow> string" where
  "status_line code =
     (if code = 200 then ''200 OK''
      else if code = 404 then ''404 Not Found''
      else if code = 500 then ''500 Internal Server Error''
      else [])"

definition reply :: "int \<Rightarrow> string \<Rightarrow> response" where
  "reply code body = \<lparr>StatusCode = code, Status = status_line code, Body = body, BodyErr = None\<rparr>"

text \<open>The test server: the \<open>n\<close>-th request is answered with the \<open>n\<close>-th status of the script with an
  empty body, and with \<open>200\<close> and the given body once the script is used up. The limiter always grants.\<close>

definition scripted :: "int list \<Rightarrow> string \<Rightarrow> env" where
  "scripted codes body =
     \<lparr>limiter_Wait = (\<lambda>n. None),
      httpClient_Do = (\<lambda>n req. Inr (if n < length codes then reply (codes ! n) [] else reply 200 body)),
      NewRequest = (\<lambda>method url. None)\<rparr>"

text \<open>A server that answers every request with the same status.\<close>

definition always :: "int \<Rightarrow> env" where
  "always code =
     \<lparr>limiter_Wait = (\<lambda>n. None),
      httpClient_Do = (\<lambda>n req. Inr (reply code [])),
      NewRequest = (\<lambda>method url. None)\<rparr>"

text \<open>A transport on which every round trip fails with the same error.\<close>

definition failing :: "go_error \<Rightarrow> env" where
  "failing err =
     \<lparr>limiter_Wait = (\<lambda>n. None),
      httpClient_Do = (\<lambda>n req. Inl err),
      NewRequest = (\<lambda>method url. None)\<rparr>"

text \<open>A caller whose context is already cancelled: the limiter returns the context's error.\<close>

definition cancelled :: env where
  "cancelled =
     \<lparr>limiter_Wait = (\<lambda>n. Some (ErrorString ''context canceled'')),
      httpClient_Do = (\<lambda>n req. Inr (reply 200 [])),
      NewRequest = (\<lambda>method url. None)\<rparr>"

definition get_test :: request where
  "get_test = \<lparr>Method = ''GET'', URL = ''http://127.0.0.1/test'', Header = Map.empty, Form = Map.empty\<rparr>"

definition trace0 :: trace where
  "trace0 = \<lparr>waits = 0, requests = 0, sleeps = [], closes = 0, reads = 0, decodes = 0\<rparr>"

text \<open>The dial error of a refused connection, as \<^verbatim>\<open>http.Client.Do\<close> returns it.\<close>

definition refused :: go_error where
  "refused = UrlError ''Post'' ''http://127.0.0.1''
               (OpError ''dial'' (SyscallError ''connect'' (Errno ECONNREFUSED)))"

text \<open>The dial error of a timeout, as \<^verbatim>\<open>http.Client.Do\<close> returns it.\<close>

definition timed_out :: go_error where
  "timed_out = UrlError ''Post'' ''http://127.0.0.1''
                 (OpError ''dial'' (NetError ''i/o timeout'' True True))"

section \<open>Properties of the retry loops\<close>

lemma trace_simps [simp]:
  "requests (Wait t) = requests t" "requests (RoundTrip t) = requests t + 1"
  "requests (Sleep d t) = requests t" "requests (Body_Close t) = requests t"
  "requests (ReadAll t) = requests t" "requests (Unmarshal t) = requests t"
  "waits (Wait t) = waits t + 1" "waits (RoundTrip t) = waits t"
  "waits (Sleep d t) = waits t" "waits (Body_Close t) = waits t"
  "waits (ReadAll t) = waits t" "waits (Unmarshal t) = waits t"
  "reads (Wait t) = reads t" "reads (RoundTrip t) = reads t"
  "reads (Sleep d t) = reads t" "reads (Body_Close t) = reads t"
  "reads (ReadAll t) = reads t + 1" "reads (Unmarshal t) = reads t"
  "decodes (Wait t) = decodes t" "decodes (RoundTrip t) = decodes t"
  "decodes (Sleep d t) = decodes t" "decodes (Body_Close t) = decodes t"
  "decodes (ReadAll t) = decodes t" "decodes (Unmarshal t) = decodes t + 1"
  "sleeps (Wait t) = sleeps t" "sleeps (RoundTrip t) = sleeps t"
  "sleeps (Sleep d t) = sleeps t @ [d]" "sleeps (Body_Close t) = sleeps t"
  "sleeps (ReadAll t) = sleeps t" "sleeps (Unmarshal t) = sleeps t"
  by (simp_all add: Wait_def RoundTrip_def Sleep_def Body_Close_def ReadAll_def Unmarshal_def)

text \<open>One pass through the loop body on a transient outcome with retries left.\<close>

lemma Do_loop_retry:
  assumes "a < maxRetries c" and "transient_outcome (httpClient_Do env (requests t) req)"
  shows "\<exists>t'. Do_loop c env req a b le t =
           Do_loop c env req (a + 1) (calculateNextBackoff c b)
             (Some (transient_error (httpClient_Do env (requests t) req))) t'
         \<and> requests t' = requests t + 1 \<and> waits t' = waits t \<and> reads t' = reads t
         \<and> decodes t' = decodes t \<and> sleeps t' = sleeps t @ [b]"
proof (cases "httpClient_Do env (requests t) req")
  case (Inl err)
  with assms have "Do_loop c env req a b le t =
      Do_loop c env req (a + 1) (calculateNextBackoff c b)
        (Some (transient_error (httpClient_Do env (requests t) req))) (Sleep b (RoundTrip t))"
    by (subst Do_loop.simps)
       (simp add: transient_outcome_def transient_error_def del: isTransientNetworkError.simps)
  then show ?thesis by (intro exI[of _ "Sleep b (RoundTrip t)"]) simp
next
  case (Inr resp)
  with assms have "Do_loop c env req a b le t =
      Do_loop c env req (a + 1) (calculateNextBackoff c b)
        (Some (transient_error (httpClient_Do env (requests t) req)))
        (Sleep b (Body_Close (RoundTrip t)))"
    by (subst Do_loop.simps)
       (simp add: transient_outcome_def transient_error_def del: isTransientNetworkError.simps)
  then show ?thesis by (intro exI[of _ "Sleep b (Body_Close (RoundTrip t))"]) simp
qed

lemma Do_loop_unroll:
  assumes "a + int k \<le> maxRetries c"
    and "\<And>i. i < k \<Longrightarrow> transient_outcome (httpClient_Do env (requests t + i) req)"
  shows "\<exists>le' t'. Do_loop c env req a b le t =
           Do_loop c env req (a + int k) ((calculateNextBackoff c ^^ k) b) le' t'
         \<and> requests t' = requests t + k \<and> waits t' = waits t \<and> reads t' = reads t
         \<and> decodes t' = decodes t \<and> sleeps t' = sleeps t @ backoffs c b k"
  using assms
proof (induction k)
  case 0
  show ?case by (intro exI[of _ le] exI[of _ t]) (simp add: backoffs_def)
next
  case (Suc k)
  from Suc.prems have "a + int k \<le> maxRetries c" by simp
  from Suc.IH[OF this] Suc.prems(2) obtain le' t' where
    eq: "Do_loop c env req a b le t =
           Do_loop c env req (a + int k) ((calculateNextBackoff c ^^ k) b) le' t'"
    and t': "requests t' = requests t + k" "waits t' = waits t" "reads t' = reads t"
      "decodes t' = decodes t" "sleeps t' = sleeps t @ backoffs c b k"
    by auto
  have lt: "a + int k < maxRetries c" using Suc.prems(1) by simp
  have tr: "transient_outcome (httpClient_Do env (requests t') req)"
    using Suc.prems(2)[of k] t'(1) by simp
  from Do_loop_retry[OF lt tr, where b="(calculateNextBackoff c ^^ k) b" and le=le'] obtain t'' where
    eq2: "Do_loop c env req (a + int k) ((calculateNextBackoff c ^^ k) b) le' t' =
            Do_loop c env req (a + int k + 1) (calculateNextBackoff c ((calculateNextBackoff c ^^ k) b))
              (Some (transient_error (httpClient_Do env (requests t') req))) t''"
    and t'': "requests t'' = requests t' + 1" "waits t'' = waits t'" "reads t'' = reads t'"
      "decodes t'' = decodes t'" "sleeps t'' = sleeps t' @ [(calculateNextBackoff c ^^ k) b]"
    by auto
  have a: "a + int k + 1 = a + int (Suc k)" by simp
  show ?case
    apply (intro exI[of _ "Some (transient_error (httpClient_Do env (requests t') req))"] exI[of _ t''])
    using eq eq2 t' t'' by (simp add: a backoffs_def)
qed

lemma Do_loop_last_attempt:
  assumes "a = maxRetries c" and "transient_outcome (httpClient_Do env (requests t) req)"
  shows "fst (Do_loop c env req a b le t) = Inl (transient_error (httpClient_Do env (requests t) req))
       \<and> requests (snd (Do_loop c env req a b le t)) = requests t + 1
       \<and> sleeps (snd (Do_loop c env req a b le t)) = sleeps t"
  using assms
  by (subst (1 2 3) Do_loop.simps)
     (auto simp: transient_outcome_def transient_error_def
        simp del: isTransientNetworkError.simps split: sum.splits)

lemma Do_loop_terminal:
  assumes "a \<le> maxRetries c" and "\<not> transient_outcome (httpClient_Do env (requests t) req)"
  shows "Do_loop c env req a b le t =
           (case httpClient_Do env (requests t) req of
              Inl err \<Rightarrow> Inl (TransportError err) | Inr resp \<Rightarrow> Inr resp, RoundTrip t)"
  using assms
  by (subst Do_loop.simps)
     (auto simp: transient_outcome_def simp del: isTransientNetworkError.simps split: sum.splits)

lemma Do_loop_exhaust:
  assumes "a \<le> maxRetries c" and "n = nat (maxRetries c - a)"
    and "\<And>i. i \<le> n \<Longrightarrow> transient_outcome (httpClient_Do env (requests t + i) req)"
  shows "fst (Do_loop c env req a b le t) = Inl (transient_error (httpClient_Do env (requests t + n) req))
       \<and> requests (snd (Do_loop c env req a b le t)) = requests t + n + 1
       \<and> sleeps (snd (Do_loop c env req a b le t)) = sleeps t @ backoffs c b n"
proof -
  have 1: "a + int n \<le> maxRetries c" using assms by simp
  from Do_loop_unroll[OF 1, where env=env and t=t and req=req and b=b and le=le] assms(3) obtain le' t' where
    eq: "Do_loop c env req a b le t =
           Do_loop c env req (a + int n) ((calculateNextBackoff c ^^ n) b) le' t'"
    and t': "requests t' = requests t + n" "sleeps t' = sleeps t @ backoffs c b n"
    by force
  have 2: "a + int n = maxRetries c" using assms by simp
  have 3: "transient_outcome (httpClient_Do env (requests t') req)"
    using assms(3)[of n] t' by simp
  show ?thesis using Do_loop_last_attempt[OF 2 3] eq t' by simp
qed

lemma Do_loop_first_terminal:
  assumes "a + int k \<le> maxRetries c"
    and "\<And>i. i < k \<Longrightarrow> transient_outcome (httpClient_Do env (requests t + i) req)"
    and "\<not> transient_outcome (httpClient_Do env (requests t + k) req)"
  shows "fst (Do_loop c env req a b le t) =
           (case httpClient_Do env (requests t + k) req of
              Inl err \<Rightarrow> Inl (TransportError err) | Inr resp \<Rightarrow> Inr resp)
       \<and> requests (snd (Do_loop c env req a b le t)) = requests t + k + 1
       \<and> sleeps (snd (Do_loop c env req a b le t)) = sleeps t @ backoffs c b k"
proof -
  from Do_loop_unroll[OF assms(1), where env=env and t=t and req=req and b=b and le=le] assms(2) obtain le' t' where
    eq: "Do_loop c env req a b le t =
           Do_loop c env req (a + int k) ((calculateNextBackoff c ^^ k) b) le' t'"
    and t': "requests t' = requests t + k" "sleeps t' = sleeps t @ backoffs c b k"
    by force
  have 3: "\<not> transient_outcome (httpClient_Do env (requests t') req)"
    using assms(3) t' by simp
  show ?thesis using Do_loop_terminal[OF assms(1) 3] eq t' by simp
qed


text \<open>The same facts for the loop of the form-command call.\<close>

lemma makeFormRequest_loop_retry:
  assumes "a < maxRetries c" and "transient_outcome (httpClient_Do env (requests t) req)"
  shows "\<exists>t'. makeFormRequest_loop c env req result a b le t =
           makeFormRequest_loop c env req result (a + 1) (calculateNextBackoff c b)
             (Some (transient_error (httpClient_Do env (requests t) req))) t'
         \<and> requests t' = requests t + 1 \<and> waits t' = waits t \<and> reads t' = reads t
         \<and> decodes t' = decodes t \<and> sleeps t' = sleeps t @ [b]"
proof (cases "httpClient_Do env (requests t) req")
  case (Inl err)
  with assms have "makeFormRequest_loop c env req result a b le t =
      makeFormRequest_loop c env req result (a + 1) (calculateNextBackoff c b)
        (Some (transient_error (httpClient_Do env (requests t) req))) (Sleep b (RoundTrip t))"
    by (subst makeFormRequest_loop.simps)
       (simp add: transient_outcome_def transient_error_def del: isTransientNetworkError.simps)
  then show ?thesis by (intro exI[of _ "Sleep b (RoundTrip t)"]) simp
next
  case (Inr resp)
  with assms have "makeFormRequest_loop c env req result a b le t =
      makeFormRequest_loop c env req result (a + 1) (calculateNextBackoff c b)
        (Some (transient_error (httpClient_Do env (requests t) req)))
        (Sleep b (Body_Close (RoundTrip t)))"
    by (subst makeFormRequest_loop.simps)
       (simp add: transient_outcome_def transient_error_def del: isTransientNetworkError.simps)
  then show ?thesis by (intro exI[of _ "Sleep b (Body_Close (RoundTrip t))"]) simp
qed

lemma makeFormRequest_loop_unroll:
  assumes "a + int k \<le> maxRetries c"
    and "\<And>i. i < k \<Longrightarrow> transient_outcome (httpClient_Do env (requests t + i) req)"
  shows "\<exists>le' t'. makeFormRequest_loop c env req result a b le t =
           makeFormRequest_loop c env req result (a + int k) ((calculateNextBackoff c ^^ k) b) le' t'
         \<and> requests t' = requests t + k \<and> waits t' = waits t \<and> reads t' = reads t
         \<and> decodes t' = decodes t \<and> sleeps t' = sleeps t @ backoffs c b k"
  using assms
proof (induction k)
  case 0
  show ?case by (intro exI[of _ le] exI[of _ t]) (simp add: backoffs_def)
next
  case (Suc k)
  from Suc.prems have "a + int k \<le> maxRetries c" by simp
  from Suc.IH[OF this] Suc.prems(2) obtain le' t' where
    eq: "makeFormRequest_loop c env req result a b le t =
           makeFormRequest_loop c env req result (a + int k) ((calculateNextBackoff c ^^ k) b) le' t'"
    and t': "requests t' = requests t + k" "waits t' = waits t" "reads t' = reads t"
      "decodes t' = decodes t" "sleeps t' = sleeps t @ backoffs c b k"
    by auto
  have lt: "a + int k < maxRetries c" using Suc.prems(1) by simp
  have tr: "transient_outcome (httpClient_Do env (requests t') req)"
    using Suc.prems(2)[of k] t'(1) by simp
  from makeFormRequest_loop_retry[OF lt tr, where b="(calculateNextBackoff c ^^ k) b" and le=le'] obtain t'' where
    eq2: "makeFormRequest_loop c env req result (a + int k) ((calculateNextBackoff c ^^ k) b) le' t' =
            makeFormRequest_loop c env req result (a + int k + 1) (calculateNextBackoff c ((calculateNextBackoff c ^^ k) b))
              (Some (transient_error (httpClient_Do env (requests t') req))) t''"
    and t'': "requests t'' = requests t' + 1" "waits t'' = waits t'" "reads t'' = reads t'"
      "decodes t'' = decodes t'" "sleeps t'' = sleeps t' @ [(calculateNextBackoff c ^^ k) b]"
    by auto
  have a: "a + int k + 1 = a + int (Suc k)" by simp
  show ?case
    apply (intro exI[of _ "Some (transient_error (httpClient_Do env (requests t') req))"] exI[of _ t''])
    using eq eq2 t' t'' by (simp add: a backoffs_def)
qed

lemma makeFormRequest_loop_last_attempt:
  assumes "a = maxRetries c" and "transient_outcome (httpClient_Do env (requests t) req)"
  shows "fst (makeFormRequest_loop c env req result a b le t) = Inl (transient_error (httpClient_Do env (requests t) req))
       \<and> requests (snd (makeFormRequest_loop c env req result a b le t)) = requests t + 1
       \<and> sleeps (snd (makeFormRequest_loop c env req result a b le t)) = sleeps t"
  using assms
  by (subst (1 2 3) makeFormRequest_loop.simps)
     (auto simp: transient_outcome_def transient_error_def
        simp del: isTransientNetworkError.simps split: sum.splits)

lemma makeFormRequest_loop_terminal:
  assumes "a \<le> maxRetries c" and "\<not> transient_outcome (httpClient_Do env (requests t) req)"
  shows "makeFormRequest_loop c env req result a b le t =
           (case httpClient_Do env (requests t) req of
              Inl err \<Rightarrow> (Inl (TransportError err), RoundTrip t)
            | Inr resp \<Rightarrow> finish_form resp result (RoundTrip t))"
  using assms
  by (subst makeFormRequest_loop.simps)
     (auto simp: transient_outcome_def simp del: isTransientNetworkError.simps split: sum.splits)

lemma makeFormRequest_loop_exhaust:
  assumes "a \<le> maxRetries c" and "n = nat (maxRetries c - a)"
    and "\<And>i. i \<le> n \<Longrightarrow> transient_outcome (httpClient_Do env (requests t + i) req)"
  shows "fst (makeFormRequest_loop c env req result a b le t) = Inl (transient_error (httpClient_Do env (requests t + n) req))
       \<and> requests (snd (makeFormRequest_loop c env req result a b le t)) = requests t + n + 1
       \<and> sleeps (snd (makeFormRequest_loop c env req result a b le t)) = sleeps t @ backoffs c b n"
proof -
  have 1: "a + int n \<le> maxRetries c" using assms by simp
  from makeFormRequest_loop_unroll[OF 1, where env=env and t=t and req=req and b=b and le=le] assms(3) obtain le' t' where
    eq: "makeFormRequest_loop c env req result a b le t =
           makeFormRequest_loop c env req result (a + int n) ((calculateNextBackoff c ^^ n) b) le' t'"
    and t': "requests t' = requests t + n" "sleeps t' = sleeps t @ backoffs c b n"
    by force
  have 2: "a + int n = maxRetries c" using assms by simp
  have 3: "transient_outcome (httpClient_Do env (requests t') req)"
    using assms(3)[of n] t' by simp
  show ?thesis using makeFormRequest_loop_last_attempt[OF 2 3] eq t' by simp
qed

lemma finish_form_trace:
  "requests (snd (finish_form resp result t)) = requests t"
  "waits (snd (finish_form resp result t)) = waits t"
  "sleeps (snd (finish_form resp result t)) = sleeps t"
  by (simp_all add: finish_form_def split: option.splits sum.splits)

lemma makeFormRequest_loop_first_terminal:
  assumes "a + int k \<le> maxRetries c"
    and "\<And>i. i < k \<Longrightarrow> transient_outcome (httpClient_Do env (requests t + i) req)"
    and "\<not> transient_outcome (httpClient_Do env (requests t + k) req)"
  shows "\<exists>t'. makeFormRequest_loop c env req result a b le t =
           (case httpClient_Do env (requests t + k) req of
              Inl err \<Rightarrow> (Inl (TransportError err), RoundTrip t')
            | Inr resp \<Rightarrow> finish_form resp result (RoundTrip t'))
       \<and> requests t' = requests t + k \<and> waits t' = waits t \<and> reads t' = reads t
       \<and> decodes t' = decodes t \<and> sleeps t' = sleeps t @ backoffs c b k"
proof -
  from makeFormRequest_loop_unroll[OF assms(1), where env=env and t=t and req=req and b=b and le=le]
    assms(2) obtain le' t' where
    eq: "makeFormRequest_loop c env req result a b le t =
           makeFormRequest_loop c env req result (a + int k) ((calculateNextBackoff c ^^ k) b) le' t'"
    and t': "requests t' = requests t + k" "waits t' = waits t" "reads t' = reads t"
      "decodes t' = decodes t" "sleeps t' = sleeps t @ backoffs c b k"
    by force
  have 3: "\<not> transient_outcome (httpClient_Do env (requests t') req)"
    using assms(3) t' by simp
  show ?thesis
    using makeFormRequest_loop_terminal[OF assms(1) 3] eq t' by (intro exI[of _ t']) simp
qed

text \<open>The loops never touch the limiter.\<close>

lemma Do_loop_waits: "waits (snd (Do_loop c env req a b le t)) = waits t"
proof (induction c env req a b le t rule: Do_loop.induct)
  case (1 c env req attempt backoff lastErr t)
  show ?case
    by (subst Do_loop.simps) (simp add: 1 split: sum.splits del: isTransientNetworkError.simps)
qed

lemma makeFormRequest_loop_waits:
  "waits (snd (makeFormRequest_loop c env req result a b le t)) = waits t"
proof (induction c env req result a b le t rule: makeFormRequest_loop.induct)
  case (1 c env req result attempt backoff lastErr t)
  show ?case
    by (subst makeFormRequest_loop.simps)
       (simp add: 1 finish_form_trace split: sum.splits del: isTransientNetworkError.simps)
qed

text \<open>With a nil result the form loop never decodes, and reads a body only to build the
  error of a non-2xx status.\<close>

lemma makeFormRequest_loop_nil:
  "decodes (snd (makeFormRequest_loop c env req None a b le t)) = decodes t
   \<and> fst (makeFormRequest_loop c env req None a b le t) \<noteq> Inl (FailedToDecode e)
   \<and> fst (makeFormRequest_loop c env req None a b le t) \<noteq> Inl (FailedToReadBody e')
   \<and> (fst (makeFormRequest_loop c env req None a b le t) = Inr x \<longrightarrow>
        x = None \<and> reads (snd (makeFormRequest_loop c env req None a b le t)) = reads t)"
proof (induction c env req "None :: 'a target option" a b le t rule: makeFormRequest_loop.induct)
  case (1 c env req attempt backoff lastErr t)
  show ?case
    apply (subst (1 2 3 4 5) makeFormRequest_loop.simps)
    using 1
    by (auto simp: finish_form_def split: sum.splits simp del: isTransientNetworkError.simps)
qed

lemma makeFormRequest_loop_nil_decodes:
  "decodes (snd (makeFormRequest_loop c env req None a b le t)) = decodes t"
  using makeFormRequest_loop_nil[of c env req a b le t] by blast

lemma makeFormRequest_loop_nil_success:
  "fst (makeFormRequest_loop c env req None a b le t) = Inr x \<Longrightarrow>
   x = None \<and> reads (snd (makeFormRequest_loop c env req None a b le t)) = reads t"
  using makeFormRequest_loop_nil[of c env req a b le t _ _ x] by blast

text \<open>A decode error comes from a decoder.\<close>

lemma makeFormRequest_loop_decode_error:
  "fst (makeFormRequest_loop c env req result a b le t) = Inl (FailedToDecode e) \<Longrightarrow> result \<noteq> None"
  using makeFormRequest_loop_nil[of c env req a b le t e] by (cases result) auto

lemma finish_form_fst: "fst (finish_form resp result t) = fst (finish_form resp result t')"
  by (simp add: finish_form_def split: option.splits sum.splits)

lemma isTransientHTTPError_iff:
  "isTransientHTTPError s \<longleftrightarrow> s \<in> {429, 500, 502, 503, 504}"
  by (simp add: isTransientHTTPError_def StatusTooManyRequests_def
      StatusInternalServerError_def StatusBadGateway_def StatusServiceUnavailable_def
      StatusGatewayTimeout_def)

lemma isTransientNetworkError_iff:
  "isTransientNetworkError (Some e) \<longleftrightarrow> is_net_Error e \<and> Timeout e"
  by (cases e) auto

lemma always_transient:
  "transient_outcome (httpClient_Do (always 500) n req)"
  by (simp add: always_def transient_outcome_def reply_def isTransientHTTPError_iff)

lemma scripted_outcomes:
  "transient_outcome (httpClient_Do (scripted [500, 500, 200] body) 0 req)"
  "transient_outcome (httpClient_Do (scripted [500, 500, 200] body) (Suc 0) req)"
  "\<not> transient_outcome (httpClient_Do (scripted [500, 500, 200] body) (Suc (Suc 0)) req)"
  "httpClient_Do (scripted [500, 500, 200] body) (Suc (Suc 0)) req = Inr (reply 200 [])"
  "\<not> transient_outcome (Inr (reply 200 body'))"
  by (simp_all add: scripted_def transient_outcome_def reply_def isTransientHTTPError_iff)

lemma fixtures_grant:
  "limiter_Wait (always code) n = None" "NewRequest (always code) m u = None"
  "limiter_Wait (scripted codes body) n = None" "NewRequest (scripted codes body) m u = None"
  "limiter_Wait (failing err) n = None" "NewRequest (failing err) m u = None"
  by (simp_all add: always_def scripted_def failing_def)

lemma failing_transient:
  "transient_outcome (httpClient_Do (failing err) n req) = isTransientNetworkError (Some err)"
  by (simp add: failing_def transient_outcome_def)

section \<open>Properties of the \<^verbatim>\<open>float64\<close> model\<close>

lemma ilog2_le: "0 < n \<Longrightarrow> 2 ^ ilog2 n \<le> n"
proof (induction n rule: ilog2.induct)
  case (1 n)
  show ?case
  proof (cases "n < 2")
    case True
    with 1 show ?thesis by (subst ilog2.simps) simp
  next
    case False
    then have "0 < n div 2" by simp
    with 1 False have "2 ^ ilog2 (n div 2) \<le> n div 2" by simp
    then have "2 * 2 ^ ilog2 (n div 2) \<le> n" by simp
    with False show ?thesis by (subst ilog2.simps) simp
  qed
qed

lemma round_half_even_of_int: "round_half_even (of_int m) = m"
  by (simp add: round_half_even_def)

lemma float64_round_pos_int:
  assumes "0 < k" and "k \<le> 2 ^ 53"
  shows "float64_round_pos (of_int k) = of_int k"
proof -
  let ?e = "ilog2 (nat k)"
  have ex: "float64_exponent (of_int k) = int ?e"
    using assms by (simp add: float64_exponent_def)
  have "(2::nat) ^ ?e \<le> nat k" using assms by (intro ilog2_le) simp
  also have "nat k \<le> 2 ^ 53" using assms by (simp add: nat_le_iff)
  finally have p: "(2::nat) ^ ?e \<le> 2 ^ 53" .
  then have e53: "?e \<le> 53" by (rule power_le_imp_le_exp[rotated]) simp
  have q: "\<exists>m. (of_int k :: rat) / pow2 (int ?e - 52) = of_int m"
  proof (cases "?e \<le> 52")
    case True
    then have "pow2 (int ?e - 52) = 1 / 2 ^ (52 - ?e)"
      by (cases "?e = 52") (auto simp: pow2_def nat_diff_distrib)
    then have "(of_int k :: rat) / pow2 (int ?e - 52) = of_int (k * 2 ^ (52 - ?e))"
      by simp
    then show ?thesis by blast
  next
    case False
    with e53 have e: "?e = 53" by simp
    with \<open>(2::nat) ^ ?e \<le> nat k\<close> assms have k: "k = 2 ^ 53"
      by (simp add: le_nat_iff)
    have "pow2 (int ?e - 52) = 2" by (simp add: e pow2_def)
    then have "(of_int k :: rat) / pow2 (int ?e - 52) = of_int (2 ^ 52)"
      unfolding k by simp
    then show ?thesis by blast
  qed
  then obtain m where m: "(of_int k :: rat) / pow2 (int ?e - 52) = of_int m" ..
  have nz: "pow2 (int ?e - 52) \<noteq> 0" by (simp add: pow2_def)
  have "of_int m * pow2 (int ?e - 52) = (of_int k :: rat)"
    using m nz by (simp add: field_simps)
  then show ?thesis
    by (simp add: float64_round_pos_def ex Let_def m round_half_even_of_int)
qed

lemma float64_round_int: "\<bar>k\<bar> \<le> 2 ^ 53 \<Longrightarrow> float64_round (of_int k) = of_int k"
proof -
  assume a: "\<bar>k\<bar> \<le> 2 ^ 53"
  consider "k = 0" | "0 < k" | "k < 0" by linarith
  then show ?thesis
  proof cases
    case 1
    then show ?thesis by (simp add: float64_round_def)
  next
    case 2
    with a show ?thesis by (simp add: float64_round_def float64_round_pos_int)
  next
    case 3
    with a have "float64_round_pos (of_int (- k)) = of_int (- k)"
      by (intro float64_round_pos_int) simp_all
    with 3 show ?thesis by (simp add: float64_round_def)
  qed
qed



lemma ilog2_unique: "2 ^ e \<le> n \<Longrightarrow> n < 2 ^ Suc e \<Longrightarrow> ilog2 n = e"
proof (induction e arbitrary: n)
  case 0
  then have "n = 1" by simp
  then show ?case by (subst ilog2.simps) simp
next
  case (Suc e)
  then have "2 ^ e \<le> n div 2" "n div 2 < 2 ^ Suc e" by simp_all
  then have "ilog2 (n div 2) = e" by (rule Suc.IH)
  moreover have "\<not> n < 2"
  proof -
    have "(2::nat) ^ Suc e \<ge> 2" by simp
    with Suc.prems(1) show ?thesis by linarith
  qed
  ultimately show ?case by (subst ilog2.simps) simp
qed

lemma float64_exponent_eval:
  assumes "(2::rat) ^ e \<le> x" and "x < 2 ^ Suc e"
  shows "float64_exponent x = int e"
proof -
  have "(1::rat) \<le> 2 ^ e" by simp
  with assms(1) have x1: "1 \<le> x" by linarith
  have "(of_int (2 ^ e) :: rat) \<le> x" using assms(1) by simp
  then have lo: "(2::int) ^ e \<le> \<lfloor>x\<rfloor>" by (simp only: le_floor_iff)
  have "x < (of_int (2 ^ Suc e) :: rat)" using assms(2) by simp
  then have hi: "\<lfloor>x\<rfloor> < (2::int) ^ Suc e" by (simp only: floor_less_iff)
  have pos: "0 \<le> \<lfloor>x\<rfloor>" using x1 by simp
  have "(2::nat) ^ e \<le> nat \<lfloor>x\<rfloor>"
    using lo pos by (simp add: le_nat_iff)
  moreover have "nat \<lfloor>x\<rfloor> < (2::nat) ^ Suc e"
    using hi pos by (simp add: nat_less_iff)
  ultimately have "ilog2 (nat \<lfloor>x\<rfloor>) = e" by (rule ilog2_unique)
  with x1 show ?thesis by (simp add: float64_exponent_def)
qed

lemma float64_round_eval:
  assumes "(2::rat) ^ e \<le> x" and "x < 2 ^ Suc e"
  shows "float64_round x
           = of_int (round_half_even (x / pow2 (int e - 52))) * pow2 (int e - 52)"
proof -
  have "(0::rat) < 2 ^ e" by simp
  with assms(1) have "0 < x" by linarith
  then show ?thesis
    by (simp add: float64_round_def float64_round_pos_def Let_def
        float64_exponent_eval[OF assms])
qed

lemma round_half_even_tie:
  "even n \<Longrightarrow> round_half_even (of_int n + 1 / 2) = n"
  "even n \<Longrightarrow> round_half_even (of_int n - 1 / 2) = n"
proof -
  assume e: "even n"
  have f1: "\<lfloor>(of_int n :: rat) + 1 / 2\<rfloor> = n" by (simp add: floor_eq_iff)
  show "round_half_even (of_int n + 1 / 2) = n"
    using e by (simp add: round_half_even_def Let_def f1)
  have f2: "\<lfloor>(of_int n :: rat) - 1 / 2\<rfloor> = n - 1" by (simp add: floor_eq_iff)
  show "round_half_even (of_int n - 1 / 2) = n"
    using e by (simp add: round_half_even_def Let_def f2)
qed

lemma round_half_even_near:
  assumes "of_int n - 1 / 2 < y" and "y < of_int n + 1 / 2"
  shows "round_half_even y = n"
proof (cases "of_int n \<le> y")
  case True
  with assms have f: "\<lfloor>y\<rfloor> = n" by (simp add: floor_eq_iff)
  show ?thesis using assms by (simp add: round_half_even_def Let_def f)
next
  case False
  with assms have f: "\<lfloor>y\<rfloor> = n - 1" by (simp add: floor_eq_iff)
  show ?thesis using assms False by (simp add: round_half_even_def Let_def f)
qed

text \<open>The model at three inputs where exact arithmetic would differ.\<close>

lemma float64_of_int_inexact: "float64_of_int (2 ^ 53 + 1) = 2 ^ 53"
proof -
  have "float64_round (2 ^ 53 + 1)
          = of_int (round_half_even ((2 ^ 53 + 1) / pow2 (int 53 - 52))) * pow2 (int 53 - 52)"
    by (rule float64_round_eval) simp_all
  moreover have "pow2 (int 53 - 52) = 2" by (simp add: pow2_def)
  moreover have "((2::rat) ^ 53 + 1) / 2 = of_int (2 ^ 52) + 1 / 2" by simp
  moreover have "round_half_even (of_int (2 ^ 52) + 1 / 2) = 2 ^ 52"
    by (rule round_half_even_tie) simp
  ultimately show ?thesis by (simp add: float64_of_int_def)
qed

lemma float64_mul_rounds_up:
  "int64_of_float64 (float64_mul (float64_of_int 10) (3152519739159347 / 4503599627370496)) = 7"
proof -
  have ten: "float64_of_int 10 = 10"
    using float64_round_int[of 10] by (simp add: float64_of_int_def)
  let ?x = "10 * (3152519739159347 / 4503599627370496) :: rat"
  have r: "float64_round ?x
          = of_int (round_half_even (?x / pow2 (int 2 - 52))) * pow2 (int 2 - 52)"
    by (rule float64_round_eval) simp_all
  have q: "pow2 (int 2 - 52) = 1 / 2 ^ 50" by (simp add: pow2_def)
  have y: "?x / (1 / 2 ^ 50) = of_int 7881299347898368 - 1 / 2" by simp
  have t: "round_half_even (of_int 7881299347898368 - 1 / 2) = 7881299347898368"
    by (rule round_half_even_tie) simp
  have "float64_round ?x = of_int 7881299347898368 * (1 / 2 ^ 50)"
    by (simp only: r q y t)
  also have "\<dots> = 7" by simp
  finally have "float64_mul (float64_of_int 10) (3152519739159347 / 4503599627370496) = 7"
    by (simp only: float64_mul_def ten)
  then show ?thesis by (simp add: int64_of_float64_def)
qed

lemma float64_mul_overflow:
  "int64_of_float64 (float64_mul (float64_of_int (2 ^ 63 - 1)) 2) = - (2 ^ 63)"
proof -
  have "float64_round (2 ^ 63 - 1)
          = of_int (round_half_even ((2 ^ 63 - 1) / pow2 (int 62 - 52))) * pow2 (int 62 - 52)"
    by (rule float64_round_eval) simp_all
  moreover have "pow2 (int 62 - 52) = 2 ^ 10" by (simp add: pow2_def)
  moreover have "round_half_even (((2::rat) ^ 63 - 1) / 2 ^ 10) = 2 ^ 53"
    by (rule round_half_even_near) simp_all
  ultimately have a: "float64_of_int (2 ^ 63 - 1) = 2 ^ 63"
    by (simp add: float64_of_int_def)
  have "float64_round (2 ^ 64)
          = of_int (round_half_even (2 ^ 64 / pow2 (int 64 - 52))) * pow2 (int 64 - 52)"
    by (rule float64_round_eval) simp_all
  moreover have "pow2 (int 64 - 52) = 2 ^ 12" by (simp add: pow2_def)
  moreover have "round_half_even ((2::rat) ^ 64 / 2 ^ 12) = 2 ^ 52"
    by (rule round_half_even_near) simp_all
  ultimately have b: "float64_round (2 ^ 64) = 2 ^ 64" by simp
  have "float64_mul (float64_of_int (2 ^ 63 - 1)) 2 = 2 ^ 64"
    unfolding float64_mul_def a using b by simp
  then show ?thesis by (simp add: int64_of_float64_def)
qed

section \<open>Properties of the conversions\<close>








section \<open>The claims\<close>

text \<open>
  C1. With max retries \<open>R \<ge> 0\<close>, a granted limiter token (and, on the form path, a request
  that could be built): if each of the \<open>R + 1\<close> attempts has a transient outcome, exactly
  \<open>R + 1\<close> round trips are made and the call fails; if attempt \<open>k \<le> R\<close> is the first with a
  non-transient outcome, exactly \<open>k + 1\<close> round trips are made and that outcome decides the
  result. This holds of \<open>Do\<close> and of \<open>makeFormRequest\<close>.
\<close>

theorem retry_request_count:
  assumes "0 \<le> maxRetries c" and "limiter_Wait env (waits t) = None"
    and "NewRequest env ''POST'' (baseURL c) = None"
  shows
    "((\<forall>i \<le> nat (maxRetries c).
         transient_outcome (httpClient_Do env (requests t + i) (inject_headers c req))) \<longrightarrow>
        requests (snd (Do c env req t)) = requests t + nat (maxRetries c) + 1
        \<and> isl (fst (Do c env req t)))
     \<and> (int k \<le> maxRetries c
         \<and> (\<forall>i < k. transient_outcome (httpClient_Do env (requests t + i) (inject_headers c req)))
         \<and> \<not> transient_outcome (httpClient_Do env (requests t + k) (inject_headers c req)) \<longrightarrow>
        requests (snd (Do c env req t)) = requests t + k + 1
        \<and> fst (Do c env req t) =
            (case httpClient_Do env (requests t + k) (inject_headers c req) of
               Inl err \<Rightarrow> Inl (TransportError err) | Inr resp \<Rightarrow> Inr resp))
     \<and> ((\<forall>i \<le> nat (maxRetries c).
         transient_outcome (httpClient_Do env (requests t + i) (form_request c command params))) \<longrightarrow>
        requests (snd (makeFormRequest c env command params result t))
          = requests t + nat (maxRetries c) + 1
        \<and> isl (fst (makeFormRequest c env command params result t)))
     \<and> (int k \<le> maxRetries c
         \<and> (\<forall>i < k. transient_outcome
                      (httpClient_Do env (requests t + i) (form_request c command params)))
         \<and> \<not> transient_outcome (httpClient_Do env (requests t + k) (form_request c command params)) \<longrightarrow>
        requests (snd (makeFormRequest c env command params result t)) = requests t + k + 1
        \<and> fst (makeFormRequest c env command params result t) =
            (case httpClient_Do env (requests t + k) (form_request c command params) of
               Inl err \<Rightarrow> Inl (TransportError err)
             | Inr resp \<Rightarrow> fst (finish_form resp result t)))"
proof (intro conjI impI)
  let ?req = "inject_headers c req"
  assume tr: "\<forall>i \<le> nat (maxRetries c). transient_outcome (httpClient_Do env (requests t + i) ?req)"
  have ex: "fst (Do_loop c env ?req 0 (initialBackoff c) None (Wait t))
              = Inl (transient_error (httpClient_Do env (requests (Wait t) + nat (maxRetries c)) ?req))
          \<and> requests (snd (Do_loop c env ?req 0 (initialBackoff c) None (Wait t)))
              = requests (Wait t) + nat (maxRetries c) + 1
          \<and> sleeps (snd (Do_loop c env ?req 0 (initialBackoff c) None (Wait t)))
              = sleeps (Wait t) @ backoffs c (initialBackoff c) (nat (maxRetries c))"
    by (rule Do_loop_exhaust) (use assms(1) tr in simp_all)
  show "requests (snd (Do c env req t)) = requests t + nat (maxRetries c) + 1"
    using ex assms(2) by (simp add: Do_def)
  show "isl (fst (Do c env req t))"
    using ex assms(2) by (simp add: Do_def)
next
  let ?req = "inject_headers c req"
  assume h: "int k \<le> maxRetries c
    \<and> (\<forall>i < k. transient_outcome (httpClient_Do env (requests t + i) ?req))
    \<and> \<not> transient_outcome (httpClient_Do env (requests t + k) ?req)"
  have ft: "fst (Do_loop c env ?req 0 (initialBackoff c) None (Wait t)) =
           (case httpClient_Do env (requests (Wait t) + k) ?req of
              Inl err \<Rightarrow> Inl (TransportError err) | Inr resp \<Rightarrow> Inr resp)
       \<and> requests (snd (Do_loop c env ?req 0 (initialBackoff c) None (Wait t)))
           = requests (Wait t) + k + 1
       \<and> sleeps (snd (Do_loop c env ?req 0 (initialBackoff c) None (Wait t)))
           = sleeps (Wait t) @ backoffs c (initialBackoff c) k"
    by (rule Do_loop_first_terminal) (use h in simp_all)
  show "requests (snd (Do c env req t)) = requests t + k + 1"
    using ft assms(2) by (simp add: Do_def)
  show "fst (Do c env req t) =
            (case httpClient_Do env (requests t + k) ?req of
               Inl err \<Rightarrow> Inl (TransportError err) | Inr resp \<Rightarrow> Inr resp)"
    using ft assms(2) by (simp add: Do_def)
next
  let ?req = "form_request c command params"
  assume tr: "\<forall>i \<le> nat (maxRetries c). transient_outcome (httpClient_Do env (requests t + i) ?req)"
  have ex: "fst (makeFormRequest_loop c env ?req result 0 (initialBackoff c) None (Wait t))
              = Inl (transient_error (httpClient_Do env (requests (Wait t) + nat (maxRetries c)) ?req))
          \<and> requests (snd (makeFormRequest_loop c env ?req result 0 (initialBackoff c) None (Wait t)))
              = requests (Wait t) + nat (maxRetries c) + 1
          \<and> sleeps (snd (makeFormRequest_loop c env ?req result 0 (initialBackoff c) None (Wait t)))
              = sleeps (Wait t) @ backoffs c (initialBackoff c) (nat (maxRetries c))"
    by (rule makeFormRequest_loop_exhaust) (use assms(1) tr in simp_all)
  show "requests (snd (makeFormRequest c env command params result t))
          = requests t + nat (maxRetries c) + 1"
    using ex assms(2,3) by (simp add: makeFormRequest_def)
  show "isl (fst (makeFormRequest c env command params result t))"
    using ex assms(2,3) by (simp add: makeFormRequest_def)
next
  let ?req = "form_request c command params"
  assume h: "int k \<le> maxRetries c
    \<and> (\<forall>i < k. transient_outcome (httpClient_Do env (requests t + i) ?req))
    \<and> \<not> transient_outcome (httpClient_Do env (requests t + k) ?req)"
  have "\<exists>t'. makeFormRequest_loop c env ?req result 0 (initialBackoff c) None (Wait t) =
           (case httpClient_Do env (requests (Wait t) + k) ?req of
              Inl err \<Rightarrow> (Inl (TransportError err), RoundTrip t')
            | Inr resp \<Rightarrow> finish_form resp result (RoundTrip t'))
       \<and> requests t' = requests (Wait t) + k \<and> waits t' = waits (Wait t)
       \<and> reads t' = reads (Wait t) \<and> decodes t' = decodes (Wait t)
       \<and> sleeps t' = sleeps (Wait t) @ backoffs c (initialBackoff c) k"
    by (rule makeFormRequest_loop_first_terminal) (use h in simp_all)
  then obtain t' where
    eq: "makeFormRequest c env command params result t =
           (case httpClient_Do env (requests t + k) ?req of
              Inl err \<Rightarrow> (Inl (TransportError err), RoundTrip t')
            | Inr resp \<Rightarrow> finish_form resp result (RoundTrip t'))"
    and t': "requests t' = requests t + k"
    using assms(2,3) by (auto simp: makeFormRequest_def)
  show "requests (snd (makeFormRequest c env command params result t)) = requests t + k + 1"
    using t' by (simp add: eq finish_form_trace split: sum.splits)
  show "fst (makeFormRequest c env command params result t) =
            (case httpClient_Do env (requests t + k) ?req of
               Inl err \<Rightarrow> Inl (TransportError err)
             | Inr resp \<Rightarrow> fst (finish_form resp result t))"
    by (simp add: eq finish_form_fst[of _ _ "RoundTrip t'" t] split: sum.splits)
qed

theorem retry_request_count_witness:
  "0 \<le> maxRetries retry_client
   \<and> requests (snd (Do retry_client (always 500) get_test trace0)) = 4
   \<and> isl (fst (Do retry_client (always 500) get_test trace0))
   \<and> requests (snd (Do retry_client (scripted [500, 500, 200] []) get_test trace0)) = 3
   \<and> fst (Do retry_client (scripted [500, 500, 200] []) get_test trace0) = Inr (reply 200 [])
   \<and> requests (snd (makeFormRequest retry_client (always 500) ''getHostStatus'' Map.empty
                      (None :: unit target option) trace0)) = 4
   \<and> isl (fst (makeFormRequest retry_client (always 500) ''getHostStatus'' Map.empty
                      (None :: unit target option) trace0))
   \<and> requests (snd (makeFormRequest retry_client (scripted [500, 500, 200] []) ''getHostStatus''
                      Map.empty (None :: unit target option) trace0)) = 3
   \<and> fst (makeFormRequest retry_client (scripted [500, 500, 200] []) ''getHostStatus''
                      Map.empty (None :: unit target option) trace0) = Inr None"
proof -
  have R: "0 \<le> maxRetries retry_client" "nat (maxRetries retry_client) = 3"
    "2 \<le> maxRetries retry_client"
    by (simp_all add: retry_client_def)
  have two: "\<And>P. (\<forall>i < (2::nat). P i) = (P 0 \<and> P (Suc 0))"
    by (auto simp: less_Suc_eq numeral_2_eq_2)
  have t0: "requests trace0 = 0" by (simp add: trace0_def)
  note a = retry_request_count[where c = retry_client and env = "always 500" and t = trace0
      and req = get_test and k = 0 and command = "''getHostStatus''" and params = Map.empty
      and result = "None :: unit target option", OF R(1) fixtures_grant(1) fixtures_grant(2)]
  note s = retry_request_count[where c = retry_client and env = "scripted [500, 500, 200] []"
      and t = trace0 and req = get_test and k = 2 and command = "''getHostStatus''"
      and params = Map.empty and result = "None :: unit target option",
      OF R(1) fixtures_grant(3) fixtures_grant(4)]
  have fin: "fst (finish_form (reply 200 []) (None :: unit target option) trace0) = Inr None"
    by (simp add: finish_form_def reply_def)
  from a have "requests (snd (Do retry_client (always 500) get_test trace0)) = 4
      \<and> isl (fst (Do retry_client (always 500) get_test trace0))
      \<and> requests (snd (makeFormRequest retry_client (always 500) ''getHostStatus'' Map.empty
                      (None :: unit target option) trace0)) = 4
      \<and> isl (fst (makeFormRequest retry_client (always 500) ''getHostStatus'' Map.empty
                      (None :: unit target option) trace0))"
    by (simp add: always_transient R t0)
  moreover from s have "requests (snd (Do retry_client (scripted [500, 500, 200] []) get_test trace0)) = 3
      \<and> fst (Do retry_client (scripted [500, 500, 200] []) get_test trace0) = Inr (reply 200 [])
      \<and> requests (snd (makeFormRequest retry_client (scripted [500, 500, 200] []) ''getHostStatus''
                      Map.empty (None :: unit target option) trace0)) = 3
      \<and> fst (makeFormRequest retry_client (scripted [500, 500, 200] []) ''getHostStatus''
                      Map.empty (None :: unit target option) trace0) = Inr None"
    by (simp add: scripted_outcomes R t0 two fin numeral_3_eq_3)
  ultimately show ?thesis using R(1) by simp
qed



text \<open>
  C3. The classifier answers with the \<^verbatim>\<open>Timeout()\<close> of a \<^verbatim>\<open>net.Error\<close> and with false for every
  other error, whatever \<^verbatim>\<open>Temporary()\<close> says. \<^verbatim>\<open>*url.Error\<close>, \<^verbatim>\<open>*net.OpError\<close> and
  \<^verbatim>\<open>syscall.Errno\<close> all satisfy \<^verbatim>\<open>net.Error\<close>, so the first type assertion of
  \<open>isTransientNetworkError\<close> catches them and answers with their \<^verbatim>\<open>Timeout()\<close>; the branches
  for \<^verbatim>\<open>*url.Error\<close> and for the three errno values are never reached. A refused or reset
  connection is therefore classified as not transient, in every wrapping, and a call that
  meets it makes one round trip and returns the error; only \<^verbatim>\<open>ETIMEDOUT\<close>, which is a timeout
  by the library's own signal, is retried.
\<close>

theorem connection_refused_not_transient:
  "(isTransientNetworkError (Some e) \<longleftrightarrow> is_net_Error e \<and> Timeout e)
   \<and> isTransientNetworkError (Some refused) = False
   \<and> isTransientNetworkError (Some (OpError ''dial'' (Errno ECONNREFUSED))) = False
   \<and> isTransientNetworkError (Some (OpError ''read'' (Errno ECONNRESET))) = False
   \<and> isTransientNetworkError (Some (Errno ECONNREFUSED)) = False
   \<and> isTransientNetworkError (Some (OpError ''dial'' (Errno ETIMEDOUT))) = True
   \<and> isTransientNetworkError (Some (OpError ''dial'' (NetError ''temporary'' False True))) = False
   \<and> isTransientNetworkError (Some (OpError ''dial'' (NetError ''timeout'' True False))) = True
   \<and> Do retry_client (failing refused) get_test trace0
       = (Inl (TransportError refused), RoundTrip (Wait trace0))
   \<and> requests (snd (Do retry_client (failing refused) get_test trace0)) = 1"
proof -
  have r: "isTransientNetworkError (Some refused) = False"
    by (simp add: refused_def ECONNREFUSED_def EAGAIN_def EWOULDBLOCK_def ETIMEDOUT_def)
  have nt: "\<not> transient_outcome (httpClient_Do (failing refused) (requests (Wait trace0))
               (inject_headers retry_client get_test))"
    using r by (simp add: failing_def transient_outcome_def)
  have "Do_loop retry_client (failing refused) (inject_headers retry_client get_test) 0
          (initialBackoff retry_client) None (Wait trace0)
        = (Inl (TransportError refused), RoundTrip (Wait trace0))"
    by (subst Do_loop_terminal[OF _ nt]) (simp_all add: retry_client_def failing_def)
  then have d: "Do retry_client (failing refused) get_test trace0
       = (Inl (TransportError refused), RoundTrip (Wait trace0))"
    by (simp add: Do_def fixtures_grant)
  have n: "requests (snd (Do retry_client (failing refused) get_test trace0)) = 1"
    unfolding d by (simp add: trace0_def)
  have ev: "isTransientNetworkError (Some (OpError ''dial'' (Errno ECONNREFUSED))) = False
     \<and> isTransientNetworkError (Some (OpError ''read'' (Errno ECONNRESET))) = False
     \<and> isTransientNetworkError (Some (Errno ECONNREFUSED)) = False
     \<and> isTransientNetworkError (Some (OpError ''dial'' (Errno ETIMEDOUT))) = True
     \<and> isTransientNetworkError (Some (OpError ''dial'' (NetError ''temporary'' False True))) = False
     \<and> isTransientNetworkError (Some (OpError ''dial'' (NetError ''timeout'' True False))) = True"
    by (simp add: ECONNREFUSED_def ECONNRESET_def EAGAIN_def EWOULDBLOCK_def ETIMEDOUT_def)
  show ?thesis
    using r d n ev isTransientNetworkError_iff[of e] by blast
qed

text \<open>
  C4. A status is transient exactly when it is 429, 500, 502, 503 or 504. A response
  with any other status ends the call at that attempt: \<open>Do\<close> returns the response; the form
  path, for a status from 200 to 299, goes on to read and decode the body (when a result
  is given), and for every other status returns the error that carries the status code
  and the body.
\<close>

theorem status_classification:
  "(isTransientHTTPError s \<longleftrightarrow> s \<in> {429, 500, 502, 503, 504})
   \<and> (0 \<le> maxRetries c \<and> limiter_Wait env (waits t) = None
        \<and> httpClient_Do env (requests t) (inject_headers c req) = Inr resp
        \<and> \<not> isTransientHTTPError (StatusCode resp) \<longrightarrow>
        Do c env req t = (Inr resp, RoundTrip (Wait t)))
   \<and> (0 \<le> maxRetries c \<and> limiter_Wait env (waits t) = None
        \<and> NewRequest env ''POST'' (baseURL c) = None
        \<and> httpClient_Do env (requests t) (form_request c command params) = Inr resp
        \<and> \<not> isTransientHTTPError (StatusCode resp) \<longrightarrow>
        requests (snd (makeFormRequest c env command params result t)) = requests t + 1
        \<and> fst (makeFormRequest c env command params result t) =
            (if 200 \<le> StatusCode resp \<and> StatusCode resp < 300 then
               (case result of
                  None \<Rightarrow> Inr None
                | Some decode \<Rightarrow>
                    (case BodyErr resp of
                       Some err \<Rightarrow> Inl (FailedToReadBody err)
                     | None \<Rightarrow>
                         (case decode (Body resp) of
                            Inl err \<Rightarrow> Inl (FailedToDecode err)
                          | Inr v \<Rightarrow> Inr (Some v))))
             else Inl (APIRequestFailed (StatusCode resp) (Body resp))))"
proof (intro conjI impI)
  show "isTransientHTTPError s \<longleftrightarrow> s \<in> {429, 500, 502, 503, 504}"
    by (rule isTransientHTTPError_iff)
next
  let ?req = "inject_headers c req"
  assume h: "0 \<le> maxRetries c \<and> limiter_Wait env (waits t) = None
        \<and> httpClient_Do env (requests t) ?req = Inr resp
        \<and> \<not> isTransientHTTPError (StatusCode resp)"
  then have nt: "\<not> transient_outcome (httpClient_Do env (requests (Wait t)) ?req)"
    by (simp add: transient_outcome_def)
  have "Do_loop c env ?req 0 (initialBackoff c) None (Wait t) = (Inr resp, RoundTrip (Wait t))"
    using h by (subst Do_loop_terminal[OF _ nt]) simp_all
  then show "Do c env req t = (Inr resp, RoundTrip (Wait t))"
    using h by (simp add: Do_def)
next
  let ?req = "form_request c command params"
  assume h: "0 \<le> maxRetries c \<and> limiter_Wait env (waits t) = None
        \<and> NewRequest env ''POST'' (baseURL c) = None
        \<and> httpClient_Do env (requests t) ?req = Inr resp
        \<and> \<not> isTransientHTTPError (StatusCode resp)"
  then have nt: "\<not> transient_outcome (httpClient_Do env (requests (Wait t)) ?req)"
    by (simp add: transient_outcome_def)
  have "makeFormRequest_loop c env ?req result 0 (initialBackoff c) None (Wait t)
          = finish_form resp result (RoundTrip (Wait t))"
    using h by (subst makeFormRequest_loop_terminal[OF _ nt]) simp_all
  then have eq: "makeFormRequest c env command params result t
          = finish_form resp result (RoundTrip (Wait t))"
    using h by (simp add: makeFormRequest_def)
  show "requests (snd (makeFormRequest c env command params result t)) = requests t + 1"
    by (simp add: eq finish_form_trace)
  show "fst (makeFormRequest c env command params result t) =
            (if 200 \<le> StatusCode resp \<and> StatusCode resp < 300 then
               (case result of
                  None \<Rightarrow> Inr None
                | Some decode \<Rightarrow>
                    (case BodyErr resp of
                       Some err \<Rightarrow> Inl (FailedToReadBody err)
                     | None \<Rightarrow>
                         (case decode (Body resp) of
                            Inl err \<Rightarrow> Inl (FailedToDecode err)
                          | Inr v \<Rightarrow> Inr (Some v))))
             else Inl (APIRequestFailed (StatusCode resp) (Body resp)))"
    by (auto simp: eq finish_form_def split: option.splits sum.splits)
qed

theorem status_classification_witness:
  "Do retry_client (always 404) get_test trace0 = (Inr (reply 404 []), RoundTrip (Wait trace0))
   \<and> requests (snd (makeFormRequest retry_client (always 404) ''getHostStatus'' Map.empty
                      (Some (\<lambda>body. Inr (length body))) trace0)) = 1
   \<and> fst (makeFormRequest retry_client (always 404) ''getHostStatus'' Map.empty
             (Some (\<lambda>body. Inr (length body))) trace0) = Inl (APIRequestFailed 404 [])
   \<and> fst (makeFormRequest retry_client (scripted [] ''{}'') ''getHostStatus'' Map.empty
             (Some (\<lambda>body. Inr (length body))) trace0) = Inr (Some 2)"
proof -
  have R: "0 \<le> maxRetries retry_client" by (simp add: retry_client_def)
  have o: "httpClient_Do (always 404) n req = Inr (reply 404 [])"
    "httpClient_Do (scripted [] ''{}'') n req = Inr (reply 200 ''{}'')" for n req
    by (simp_all add: always_def scripted_def)
  have nt: "\<not> isTransientHTTPError (StatusCode (reply 404 b))"
    "\<not> isTransientHTTPError (StatusCode (reply 200 b))" for b
    by (simp_all add: reply_def isTransientHTTPError_iff)
  note a = status_classification[where c = retry_client and env = "always 404" and t = trace0
      and req = get_test and resp = "reply 404 []" and command = "''getHostStatus''"
      and params = Map.empty and result = "Some (\<lambda>body. Inr (length body))"]
  note b = status_classification[where c = retry_client and env = "scripted [] ''{}''"
      and t = trace0 and req = get_test and resp = "reply 200 ''{}''"
      and command = "''getHostStatus''" and params = Map.empty
      and result = "Some (\<lambda>body. Inr (length body))"]
  from a have "Do retry_client (always 404) get_test trace0
        = (Inr (reply 404 []), RoundTrip (Wait trace0))
     \<and> requests (snd (makeFormRequest retry_client (always 404) ''getHostStatus'' Map.empty
                      (Some (\<lambda>body. Inr (length body))) trace0)) = 1
     \<and> fst (makeFormRequest retry_client (always 404) ''getHostStatus'' Map.empty
             (Some (\<lambda>body. Inr (length body))) trace0) = Inl (APIRequestFailed 404 [])"
    using R by (simp add: o nt fixtures_grant) (simp add: reply_def trace0_def)
  moreover from b have "fst (makeFormRequest retry_client (scripted [] ''{}'') ''getHostStatus''
             Map.empty (Some (\<lambda>body. Inr (length body))) trace0) = Inr (Some 2)"
    using R by (simp add: o nt fixtures_grant) (simp add: reply_def)
  ultimately show ?thesis by simp
qed

lemma exhaustion_returns_last_error:
  assumes "0 \<le> maxRetries c" and "limiter_Wait env (waits t) = None"
    and "NewRequest env ''POST'' (baseURL c) = None"
  shows
    "((\<forall>i \<le> nat (maxRetries c).
         transient_outcome (httpClient_Do env (requests t + i) (inject_headers c req))) \<longrightarrow>
        fst (Do c env req t) =
          Inl (transient_error
                 (httpClient_Do env (requests t + nat (maxRetries c)) (inject_headers c req)))
        \<and> requests (snd (Do c env req t)) = requests t + nat (maxRetries c) + 1)
     \<and> ((\<forall>i \<le> nat (maxRetries c).
         transient_outcome (httpClient_Do env (requests t + i) (form_request c command params))) \<longrightarrow>
        fst (makeFormRequest c env command params result t) =
          Inl (transient_error
                 (httpClient_Do env (requests t + nat (maxRetries c))
                    (form_request c command params)))
        \<and> requests (snd (makeFormRequest c env command params result t))
            = requests t + nat (maxRetries c) + 1)"
proof (intro conjI impI)
  let ?req = "inject_headers c req"
  assume tr: "\<forall>i \<le> nat (maxRetries c). transient_outcome (httpClient_Do env (requests t + i) ?req)"
  have ex: "fst (Do_loop c env ?req 0 (initialBackoff c) None (Wait t))
              = Inl (transient_error (httpClient_Do env (requests (Wait t) + nat (maxRetries c)) ?req))
          \<and> requests (snd (Do_loop c env ?req 0 (initialBackoff c) None (Wait t)))
              = requests (Wait t) + nat (maxRetries c) + 1
          \<and> sleeps (snd (Do_loop c env ?req 0 (initialBackoff c) None (Wait t)))
              = sleeps (Wait t) @ backoffs c (initialBackoff c) (nat (maxRetries c))"
    by (rule Do_loop_exhaust) (use assms(1) tr in simp_all)
  then show "fst (Do c env req t) =
      Inl (transient_error (httpClient_Do env (requests t + nat (maxRetries c)) ?req))"
    using assms(2) by (simp add: Do_def)
  show "requests (snd (Do c env req t)) = requests t + nat (maxRetries c) + 1"
    using ex assms(2) by (simp add: Do_def)
next
  let ?req = "form_request c command params"
  assume tr: "\<forall>i \<le> nat (maxRetries c). transient_outcome (httpClient_Do env (requests t + i) ?req)"
  have ex: "fst (makeFormRequest_loop c env ?req result 0 (initialBackoff c) None (Wait t))
              = Inl (transient_error (httpClient_Do env (requests (Wait t) + nat (maxRetries c)) ?req))
          \<and> requests (snd (makeFormRequest_loop c env ?req result 0 (initialBackoff c) None (Wait t)))
              = requests (Wait t) + nat (maxRetries c) + 1
          \<and> sleeps (snd (makeFormRequest_loop c env ?req result 0 (initialBackoff c) None (Wait t)))
              = sleeps (Wait t) @ backoffs c (initialBackoff c) (nat (maxRetries c))"
    by (rule makeFormRequest_loop_exhaust) (use assms(1) tr in simp_all)
  then show "fst (makeFormRequest c env command params result t) =
      Inl (transient_error (httpClient_Do env (requests t + nat (maxRetries c)) ?req))"
    using assms(2,3) by (simp add: makeFormRequest_def)
  show "requests (snd (makeFormRequest c env command params result t))
          = requests t + nat (maxRetries c) + 1"
    using ex assms(2,3) by (simp add: makeFormRequest_def)
qed

text \<open>
  C5. Exhaustion at concrete inputs. With three retries against a server that always
  answers 500, \<open>Do\<close> and \<open>makeFormRequest\<close> make four round trips and return the plain
  \<^verbatim>\<open>"HTTP 500: 500 Internal Server Error"\<close> error; on a transport that times out at every
  attempt they make four round trips and return the transport's error as it is. Neither
  is the retry-exhaustion error that wraps the last error: the statement after the loop
  that builds it is reached only when no attempt is made (\<open>maxRetries = -1\<close>), and then it
  wraps a nil error.
\<close>

theorem exhaustion_not_wrapped:
  "fst (Do retry_client (always 500) get_test trace0)
       = Inl (HTTPError 500 ''500 Internal Server Error'')
   \<and> fst (Do retry_client (always 500) get_test trace0)
       \<noteq> Inl (RequestFailedAfterRetries 3 (Some (HTTPError 500 ''500 Internal Server Error'')))
   \<and> requests (snd (Do retry_client (always 500) get_test trace0)) = 4
   \<and> fst (makeFormRequest retry_client (always 500) ''getHostStatus'' Map.empty
             (None :: unit target option) trace0)
       = Inl (HTTPError 500 ''500 Internal Server Error'')
   \<and> fst (makeFormRequest retry_client (always 500) ''getHostStatus'' Map.empty
             (None :: unit target option) trace0)
       \<noteq> Inl (RequestFailedAfterRetries 3 (Some (HTTPError 500 ''500 Internal Server Error'')))
   \<and> requests (snd (makeFormRequest retry_client (always 500) ''getHostStatus'' Map.empty
                      (None :: unit target option) trace0)) = 4
   \<and> fst (Do retry_client (failing timed_out) get_test trace0) = Inl (TransportError timed_out)
   \<and> fst (Do retry_client (failing timed_out) get_test trace0)
       \<noteq> Inl (RequestFailedAfterRetries 3 (Some (TransportError timed_out)))
   \<and> requests (snd (Do retry_client (failing timed_out) get_test trace0)) = 4
   \<and> fst (makeFormRequest retry_client (failing timed_out) ''getHostStatus'' Map.empty
             (None :: unit target option) trace0) = Inl (TransportError timed_out)
   \<and> requests (snd (makeFormRequest retry_client (failing timed_out) ''getHostStatus''
                      Map.empty (None :: unit target option) trace0)) = 4
   \<and> Do (retry_client\<lparr>maxRetries := - 1\<rparr>) (always 500) get_test trace0
       = (Inl (RequestFailedAfterRetries (- 1) None), Wait trace0)
   \<and> makeFormRequest (retry_client\<lparr>maxRetries := - 1\<rparr>) (always 500) ''getHostStatus''
         Map.empty (None :: unit target option) trace0
       = (Inl (RequestFailedAfterRetries (- 1) None), Wait trace0)"
proof -
  have R: "0 \<le> maxRetries retry_client" "nat (maxRetries retry_client) = 3"
    by (simp_all add: retry_client_def)
  have t0: "requests trace0 = 0" by (simp add: trace0_def)
  have e: "transient_error (httpClient_Do (always 500) n req)
             = HTTPError 500 ''500 Internal Server Error''" for n req
    by (simp add: always_def transient_error_def reply_def status_line_def)
  have to: "isTransientNetworkError (Some timed_out)"
    by (simp add: timed_out_def)
  have tt: "transient_outcome (httpClient_Do (failing timed_out) n req)" for n req
    using to by (simp only: failing_transient)
  have te: "transient_error (httpClient_Do (failing timed_out) n req) = TransportError timed_out"
    for n req
    by (simp add: failing_def transient_error_def)
  note a = exhaustion_returns_last_error[where c = retry_client and env = "always 500"
      and t = trace0 and req = get_test and command = "''getHostStatus''"
      and params = Map.empty and result = "None :: unit target option",
      OF R(1) fixtures_grant(1) fixtures_grant(2)]
  note b = exhaustion_returns_last_error[where c = retry_client and env = "failing timed_out"
      and t = trace0 and req = get_test and command = "''getHostStatus''"
      and params = Map.empty and result = "None :: unit target option",
      OF R(1) fixtures_grant(5) fixtures_grant(6)]
  from a have 1: "fst (Do retry_client (always 500) get_test trace0)
         = Inl (HTTPError 500 ''500 Internal Server Error'')
       \<and> requests (snd (Do retry_client (always 500) get_test trace0)) = 4
       \<and> fst (makeFormRequest retry_client (always 500) ''getHostStatus'' Map.empty
             (None :: unit target option) trace0)
         = Inl (HTTPError 500 ''500 Internal Server Error'')
       \<and> requests (snd (makeFormRequest retry_client (always 500) ''getHostStatus'' Map.empty
                      (None :: unit target option) trace0)) = 4"
    by (simp add: always_transient e R t0)
  from b have 2: "fst (Do retry_client (failing timed_out) get_test trace0)
         = Inl (TransportError timed_out)
       \<and> requests (snd (Do retry_client (failing timed_out) get_test trace0)) = 4
       \<and> fst (makeFormRequest retry_client (failing timed_out) ''getHostStatus'' Map.empty
             (None :: unit target option) trace0) = Inl (TransportError timed_out)
       \<and> requests (snd (makeFormRequest retry_client (failing timed_out) ''getHostStatus''
                      Map.empty (None :: unit target option) trace0)) = 4"
    by (simp add: tt te R t0)
  have 3: "Do (retry_client\<lparr>maxRetries := - 1\<rparr>) (always 500) get_test trace0
       = (Inl (RequestFailedAfterRetries (- 1) None), Wait trace0)"
    by (simp add: Do_def fixtures_grant) (subst Do_loop.simps, simp)
  have 4: "makeFormRequest (retry_client\<lparr>maxRetries := - 1\<rparr>) (always 500) ''getHostStatus''
         Map.empty (None :: unit target option) trace0
       = (Inl (RequestFailedAfterRetries (- 1) None), Wait trace0)"
    by (simp add: makeFormRequest_def fixtures_grant) (subst makeFormRequest_loop.simps, simp)
  show ?thesis using 1 2 3 4 by simp
qed

text \<open>
  C6, as the code has it. \<open>Do\<close> and \<open>makeFormRequest\<close> both call the limiter once, before the
  loop, and the loops never call it: every call acquires the limiter exactly once,
  whatever the number of attempts, and when that one acquisition fails no round trip is
  made, so it comes before the first attempt.
\<close>

theorem limiter_acquired_once:
  "waits (snd (Do c env req t)) = waits t + 1
   \<and> waits (snd (makeFormRequest c env command params result t)) = waits t + 1
   \<and> (limiter_Wait env (waits t) = Some err \<longrightarrow>
        requests (snd (Do c env req t)) = requests t
        \<and> requests (snd (makeFormRequest c env command params result t)) = requests t)"
  by (simp add: Do_def makeFormRequest_def Do_loop_waits makeFormRequest_loop_waits
      split: option.splits)

theorem limiter_acquired_once_witness:
  "limiter_Wait cancelled (waits trace0) = Some (ErrorString ''context canceled'')
   \<and> waits (snd (Do retry_client cancelled get_test trace0)) = 1
   \<and> requests (snd (Do retry_client cancelled get_test trace0)) = 0
   \<and> waits (snd (makeFormRequest retry_client cancelled ''getHostStatus'' Map.empty
                   (None :: unit target option) trace0)) = 1
   \<and> requests (snd (makeFormRequest retry_client cancelled ''getHostStatus'' Map.empty
                      (None :: unit target option) trace0)) = 0"
proof -
  have w: "limiter_Wait cancelled (waits trace0) = Some (ErrorString ''context canceled'')"
    by (simp add: cancelled_def)
  note T = limiter_acquired_once[where c = retry_client and env = cancelled and t = trace0
      and req = get_test and command = "''getHostStatus''" and params = Map.empty
      and result = "None :: unit target option" and err = "ErrorString ''context canceled''"]
  from T w show ?thesis by (simp add: trace0_def)
qed

text \<open>
  C6 as the claim states it fails on the generic path: with answers 500, 500, 200 the
  call makes three attempts and acquires the limiter once.
\<close>

theorem Do_reacquires_counterexample:
  "requests (snd (Do retry_client (scripted [500, 500, 200] []) get_test trace0)) = 3
   \<and> waits (snd (Do retry_client (scripted [500, 500, 200] []) get_test trace0)) = 1"
proof -
  have R: "0 + int 2 \<le> maxRetries retry_client" by (simp add: retry_client_def)
  have r0: "requests trace0 = 0" by (simp add: trace0_def)
  have h1: "transient_outcome (httpClient_Do (scripted [500, 500, 200] [])
               (requests (Wait trace0) + i) (inject_headers retry_client get_test))"
    if "i < 2" for i
  proof -
    from that have "i = 0 \<or> i = Suc 0" by arith
    then show ?thesis using scripted_outcomes(1,2) by (auto simp: r0)
  qed
  have h2: "\<not> transient_outcome (httpClient_Do (scripted [500, 500, 200] [])
               (requests (Wait trace0) + 2) (inject_headers retry_client get_test))"
    using scripted_outcomes(3) by (simp add: r0 numeral_2_eq_2)
  have "requests (snd (Do_loop retry_client (scripted [500, 500, 200] [])
          (inject_headers retry_client get_test) 0 (initialBackoff retry_client) None
          (Wait trace0))) = requests (Wait trace0) + 2 + 1"
    using Do_loop_first_terminal[OF R h1 h2] by simp
  then have 1: "requests (snd (Do retry_client (scripted [500, 500, 200] []) get_test trace0)) = 3"
    by (simp add: Do_def fixtures_grant trace0_def)
  have 2: "waits (snd (Do retry_client (scripted [500, 500, 200] []) get_test trace0)) = 1"
    by (simp add: Do_def fixtures_grant Do_loop_waits trace0_def)
  show ?thesis using 1 2 by simp
qed

text \<open>
  C7. When the limiter's wait ends with an error (the caller's context is cancelled
  before a token is granted), both calls return the rate-limiter-wait error that wraps
  it, and no round trip is made.
\<close>

theorem cancelled_before_token:
  assumes "limiter_Wait env (waits t) = Some err"
  shows "Do c env req t = (Inl (RateLimiterWaitFailed err), Wait t)
   \<and> requests (snd (Do c env req t)) = requests t
   \<and> makeFormRequest c env command params result t = (Inl (RateLimiterWaitFailed err), Wait t)
   \<and> requests (snd (makeFormRequest c env command params result t)) = requests t"
  using assms by (simp add: Do_def makeFormRequest_def)

theorem cancelled_before_token_witness:
  "limiter_Wait cancelled (waits trace0) = Some (ErrorString ''context canceled'')
   \<and> fst (Do retry_client cancelled get_test trace0)
       = Inl (RateLimiterWaitFailed (ErrorString ''context canceled''))
   \<and> requests (snd (Do retry_client cancelled get_test trace0)) = 0
   \<and> fst (makeFormRequest retry_client cancelled ''getHostStatus'' Map.empty
             (None :: unit target option) trace0)
       = Inl (RateLimiterWaitFailed (ErrorString ''context canceled''))
   \<and> requests (snd (makeFormRequest retry_client cancelled ''getHostStatus'' Map.empty
                      (None :: unit target option) trace0)) = 0"
proof -
  have w: "limiter_Wait cancelled (waits trace0) = Some (ErrorString ''context canceled'')"
    by (simp add: cancelled_def)
  from cancelled_before_token[OF w, where c = retry_client and req = get_test
      and command = "''getHostStatus''" and params = Map.empty
      and result = "None :: unit target option"]
  show ?thesis using w by (simp add: trace0_def)
qed




text \<open>
  C9. The not-found error of \<open>GetHost\<close> at the host resource's \<open>Read\<close>. \<open>isNotFoundError\<close>
  compares the text of the error with \<^verbatim>\<open>404 Not Found\<close>, and no error that \<open>GetHost\<close> makes has
  that text: each begins with \<^verbatim>\<open>failed to get host\<close>, \<^verbatim>\<open>API returned error code\<close> or
  \<^verbatim>\<open>host with ID\<close>. For host 5 and a server whose status list is empty, \<open>GetHost\<close> returns
  \<^verbatim>\<open>host with ID 5 not found\<close>, \<open>isNotFoundError\<close> rejects it, and \<open>Read\<close> reports a client error
  and does not remove the resource; the test of the sensor resource's \<open>Read\<close> accepts the
  same text.
\<close>

theorem host_not_found_not_recognised:
  "isNotFoundError (Some (host_Error msg err)) = False
   \<and> fst (GetHost retry_client (scripted [] ''{}'') (\<lambda>body. Inr zero_response) 5 trace0)
       = Inl (HostNotFound 5)
   \<and> host_Error msg (HostNotFound 5) = ''host with ID 5 not found''
   \<and> isNotFoundError (Some ''host with ID 5 not found'') = False
   \<and> hostResource_Read
        (client_GetHost retry_client (scripted [] ''{}'') (\<lambda>body. Inr zero_response) msg trace0)
        \<lparr>model_ID = ''5'', model_Name = ''web'', model_TestInterval = 60, model_Enabled = True\<rparr>
       = ClientError ''Unable to read host, got error: host with ID 5 not found''
   \<and> sensor_not_found ''host with ID 5 not found'' = True
   \<and> isNotFoundError (Some ''404 Not Found'') = True"
proof -
  have 1: "isNotFoundError (Some (host_Error msg err)) = False"
    by (cases err) (simp_all add: isNotFoundError_def)
  have R: "0 \<le> maxRetries retry_client" by (simp add: retry_client_def)
  have nt: "\<not> transient_outcome (httpClient_Do (scripted [] ''{}'') (requests (Wait trace0)) req)"
    for req
    by (simp add: scripted_def transient_outcome_def reply_def isTransientHTTPError_iff)
  have "makeFormRequest_loop retry_client (scripted [] ''{}'')
          (form_request retry_client ''getHostStatus'' [''hostid'' \<mapsto> Itoa 5])
          (Some (\<lambda>body. Inr zero_response)) 0 (initialBackoff retry_client) None (Wait trace0)
        = finish_form (reply 200 ''{}'') (Some (\<lambda>body. Inr zero_response))
            (RoundTrip (Wait trace0))"
    by (subst makeFormRequest_loop_terminal[OF R nt]) (simp add: scripted_def)
  then have m: "fst (makeFormRequest retry_client (scripted [] ''{}'') ''getHostStatus''
          [''hostid'' \<mapsto> Itoa 5] (Some (\<lambda>body. Inr zero_response)) trace0)
        = Inr (Some zero_response)"
    by (simp add: makeFormRequest_def fixtures_grant finish_form_def reply_def)
  have 2: "fst (GetHost retry_client (scripted [] ''{}'') (\<lambda>body. Inr zero_response) 5 trace0)
       = Inl (HostNotFound 5)"
  proof -
    obtain r t' where eq: "makeFormRequest retry_client (scripted [] ''{}'') ''getHostStatus''
          [''hostid'' \<mapsto> Itoa 5] (Some (\<lambda>body. Inr zero_response)) trace0 = (r, t')"
      by (cases "makeFormRequest retry_client (scripted [] ''{}'') ''getHostStatus''
          [''hostid'' \<mapsto> Itoa 5] (Some (\<lambda>body. Inr zero_response)) trace0") blast
    with m have "r = Inr (Some zero_response)" by simp
    then show ?thesis by (simp add: GetHost_def eq) (simp add: zero_response_def)
  qed
  have i5: "Itoa 5 = ''5''"
    by (simp add: Itoa_def digits.simps digit_char_def)
  have 3: "host_Error msg (HostNotFound 5) = ''host with ID 5 not found''"
    by (simp add: i5)
  have 4: "isNotFoundError (Some ''host with ID 5 not found'') = False"
    by (simp add: isNotFoundError_def)
  have a: "Atoi ''5'' = Inr 5" by (simp add: Atoi_def digit_val_def maxUint64_def)
  have 5: "hostResource_Read
        (client_GetHost retry_client (scripted [] ''{}'') (\<lambda>body. Inr zero_response) msg trace0)
        \<lparr>model_ID = ''5'', model_Name = ''web'', model_TestInterval = 60, model_Enabled = True\<rparr>
       = ClientError ''Unable to read host, got error: host with ID 5 not found''"
    by (simp add: hostResource_Read_def client_GetHost_def a 2 i5 isNotFoundError_def)
  have 6: "sensor_not_found ''host with ID 5 not found'' = True"
    by (simp add: sensor_not_found_def)
  have 7: "isNotFoundError (Some ''404 Not Found'') = True"
    by (simp add: isNotFoundError_def)
  show ?thesis using 1 2 3 4 5 6 7 by blast
qed

text \<open>
  C10. A form-command call with a nil result never calls the decoder, and when it
  succeeds it has read no body and returns nothing decoded; so a decode error can only
  come from a call with a result target. In particular, when the first non-transient
  outcome (at attempt \<open>k \<le> R\<close>) is a response with a status from 200 to 299, the call with
  a nil result succeeds, without a read and without a decode.
\<close>

theorem nil_result_skips_decode:
  "decodes (snd (makeFormRequest c env command params (None :: 'r target option) t)) = decodes t
   \<and> (fst (makeFormRequest c env command params (None :: 'r target option) t) = Inr x \<longrightarrow>
        x = None
        \<and> reads (snd (makeFormRequest c env command params (None :: 'r target option) t))
            = reads t)
   \<and> (fst (makeFormRequest c env command params result t) = Inl (FailedToDecode e) \<longrightarrow>
        result \<noteq> None)
   \<and> (limiter_Wait env (waits t) = None \<and> NewRequest env ''POST'' (baseURL c) = None
        \<and> int k \<le> maxRetries c
        \<and> (\<forall>i < k. transient_outcome
                      (httpClient_Do env (requests t + i) (form_request c command params)))
        \<and> httpClient_Do env (requests t + k) (form_request c command params) = Inr resp
        \<and> 200 \<le> StatusCode resp \<and> StatusCode resp < 300 \<longrightarrow>
        fst (makeFormRequest c env command params (None :: 'r target option) t) = Inr None
        \<and> reads (snd (makeFormRequest c env command params (None :: 'r target option) t))
            = reads t
        \<and> decodes (snd (makeFormRequest c env command params (None :: 'r target option) t))
            = decodes t)"
proof -
  let ?req = "form_request c command params"
  let ?nil = "None :: 'r target option"
  have 1: "decodes (snd (makeFormRequest c env command params ?nil t)) = decodes t"
    by (simp add: makeFormRequest_def makeFormRequest_loop_nil_decodes split: option.splits)
  have 2: "x = None \<and> reads (snd (makeFormRequest c env command params ?nil t)) = reads t"
    if "fst (makeFormRequest c env command params ?nil t) = Inr x" for x
    using that makeFormRequest_loop_nil_success[of c env ?req 0 "initialBackoff c" None "Wait t" x]
    by (simp add: makeFormRequest_def split: option.splits)
  have 3: "result \<noteq> None"
    if "fst (makeFormRequest c env command params result t) = Inl (FailedToDecode e)"
    using that makeFormRequest_loop_decode_error[of c env ?req result 0 "initialBackoff c" None "Wait t" e]
    by (auto simp: makeFormRequest_def split: option.splits)
  have 4: "fst (makeFormRequest c env command params ?nil t) = Inr None"
    if h: "limiter_Wait env (waits t) = None \<and> NewRequest env ''POST'' (baseURL c) = None
        \<and> int k \<le> maxRetries c
        \<and> (\<forall>i < k. transient_outcome (httpClient_Do env (requests t + i) ?req))
        \<and> httpClient_Do env (requests t + k) ?req = Inr resp
        \<and> 200 \<le> StatusCode resp \<and> StatusCode resp < 300"
  proof -
    from h have nt: "\<not> transient_outcome (httpClient_Do env (requests (Wait t) + k) ?req)"
      by (auto simp: transient_outcome_def isTransientHTTPError_iff)
    have "\<exists>t'. makeFormRequest_loop c env ?req ?nil 0 (initialBackoff c) None (Wait t) =
           (case httpClient_Do env (requests (Wait t) + k) ?req of
              Inl err \<Rightarrow> (Inl (TransportError err), RoundTrip t')
            | Inr resp \<Rightarrow> finish_form resp ?nil (RoundTrip t'))
       \<and> requests t' = requests (Wait t) + k \<and> waits t' = waits (Wait t)
       \<and> reads t' = reads (Wait t) \<and> decodes t' = decodes (Wait t)
       \<and> sleeps t' = sleeps (Wait t) @ backoffs c (initialBackoff c) k"
      by (rule makeFormRequest_loop_first_terminal) (use h nt in simp_all)
    then show ?thesis
      using h by (auto simp: makeFormRequest_def finish_form_def)
  qed
  show ?thesis using 1 2 3 4 by (intro conjI impI) blast+
qed

theorem nil_result_skips_decode_witness:
  "fst (makeFormRequest retry_client (scripted [500, 500, 200] ''not json'')
          ''deleteHost'' [''hostid'' \<mapsto> ''7''] (None :: unit target option) trace0) = Inr None
   \<and> reads (snd (makeFormRequest retry_client (scripted [500, 500, 200] ''not json'')
          ''deleteHost'' [''hostid'' \<mapsto> ''7''] (None :: unit target option) trace0)) = 0
   \<and> decodes (snd (makeFormRequest retry_client (scripted [500, 500, 200] ''not json'')
          ''deleteHost'' [''hostid'' \<mapsto> ''7''] (None :: unit target option) trace0)) = 0"
proof -
  have R: "2 \<le> maxRetries retry_client" by (simp add: retry_client_def)
  have two: "\<And>P. (\<forall>i < (2::nat). P i) = (P 0 \<and> P (Suc 0))"
    by (auto simp: less_Suc_eq numeral_2_eq_2)
  have t0: "requests trace0 = 0" "reads trace0 = 0" "decodes trace0 = 0"
    by (simp_all add: trace0_def)
  have s: "StatusCode (reply 200 []) = 200" by (simp add: reply_def)
  note T = nil_result_skips_decode[where c = retry_client
      and env = "scripted [500, 500, 200] ''not json''" and t = trace0 and k = 2
      and command = "''deleteHost''" and params = "[''hostid'' \<mapsto> ''7'']"
      and resp = "reply 200 []" and ?'r = unit and result = None]
  from T[THEN conjunct2, THEN conjunct2, THEN conjunct2]
  show ?thesis
    by (simp add: R two t0 s scripted_outcomes fixtures_grant)
qed

end
